theory Spec2Isabelle
  imports Main "HOL-Library.AList" "HOL-Library.Char_ord" "HOL-Library.List_Lexorder"
begin

section \<open>Python string operations used by the sources\<close>

text \<open>
  \<open>str.split(sep)\<close> for a separator of one character: the string is cut at every
  occurrence, so adjacent separators give empty tokens and the empty string gives one
  empty token.
\<close>

fun split_by :: "(char \<Rightarrow> bool) \<Rightarrow> string \<Rightarrow> string list" where
  "split_by P [] = [[]]"
| "split_by P (x # xs) =
     (if P x then [] # split_by P xs
      else (case split_by P xs of
              [] \<Rightarrow> [[x]]
            | w # ws \<Rightarrow> (x # w) # ws))"

definition split_on :: "char \<Rightarrow> string \<Rightarrow> string list" where
  "split_on c s = split_by (\<lambda>x. x = c) s"

text \<open>The characters \<open>str.strip()\<close> removes: space, tab, newline, return, VT and FF.\<close>

definition is_space :: "char \<Rightarrow> bool" where
  "is_space c \<longleftrightarrow> c \<in> set [CHR '' '', CHR 0x09, CHR 0x0A, CHR 0x0D, CHR 0x0B, CHR 0x0C]"

definition strip :: "string \<Rightarrow> string" where
  "strip s = rev (dropWhile is_space (rev (dropWhile is_space s)))"

definition startswith :: "string \<Rightarrow> string \<Rightarrow> bool" where
  "startswith s p \<longleftrightarrow> take (length p) s = p"

definition endswith :: "string \<Rightarrow> string \<Rightarrow> bool" where
  "endswith s p \<longleftrightarrow> length p \<le> length s \<and> drop (length s - length p) s = p"

text \<open>\<open>sep.join(xs)\<close>.\<close>

fun join :: "string \<Rightarrow> string list \<Rightarrow> string" where
  "join sep [] = []"
| "join sep [x] = x"
| "join sep (x # y # ys) = x @ sep @ join sep (y # ys)"

text \<open>
  \<open>str.split()\<close> without a separator: the tokens between runs of whitespace. The source
  never calls it; it is the reading of a line as whitespace-delimited tokens, kept to
  compare with what \<open>parse_sources_data\<close> does.
\<close>

definition whitespace_tokens :: "string \<Rightarrow> string list" where
  "whitespace_tokens s = filter (\<lambda>w. w \<noteq> []) (split_by is_space s)"

section \<open>Errors\<close>

text \<open>Every exception the modelled code raises or lets through, as a value.\<close>

datatype error =
    ValueError string
  | InvalidData string "string option"
  | DownloadFailure string
  | ResourceNotFound string
  | UnboundLocalError
  | IndexError
  | AssertionError
  | IOError string
  | AttributeError
  | DownloadFailed string
  | InvalidRdmanifest string
  | InstallFailed string string
  | ExtractError string
  | OSError string
  | URLError string
  | YAMLError string
  | SocketTimeout string
  | HTTPException string

section \<open>sources\_list.py: the data model\<close>

text \<open>A loaded YAML document.\<close>

datatype yaml = YNull | YStr string | YList "yaml list" | YDict "(string \<times> yaml) list"

fun is_dict :: "yaml \<Rightarrow> bool" where
  "is_dict (YDict kvs) = True"
| "is_dict y = False"

definition TYPE_YAML :: string where
  "TYPE_YAML = ''yaml''"

definition TYPE_GBPDISTRO :: string where
  "TYPE_GBPDISTRO = ''gbpdistro''"

definition VALID_TYPES :: "string list" where
  "VALID_TYPES = [TYPE_YAML, TYPE_GBPDISTRO]"

record DataSource =
  type :: string
  url :: string
  tags :: "string list"
  origin :: "string option"

text \<open>
  What the constructor reads of the library's \<open>urlparse.urlparse(url)\<close>. The parser is
  not part of the repository: every definition that needs it takes it as the parameter
  \<open>urlparse\<close>.
\<close>

record parsed_url =
  scheme :: string
  netloc :: string
  path :: string

text \<open>
  \<open>DataSource.__init__\<close>: \<open>Inl\<close> is the \<open>ValueError\<close> it raises. The third check
  (tags must be a list) is the type of \<open>tags\<close>.
\<close>

definition DataSource_init ::
  "(string \<Rightarrow> parsed_url) \<Rightarrow> string \<Rightarrow> string \<Rightarrow> string list \<Rightarrow> string option
     \<Rightarrow> error + DataSource" where
  "DataSource_init urlparse ty u tgs orig =
     (if ty \<notin> set VALID_TYPES
      then Inl (ValueError (''type must be one of ['' @ join '','' VALID_TYPES @ '']''))
      else
        let parsed = urlparse u in
        if scheme parsed = [] \<or> netloc parsed = [] \<or> path parsed \<in> set ['''', ''/'']
        then Inl (ValueError
               (''url must be a fully-specified URL with scheme, hostname, and path: '' @ u))
        else Inr \<lparr>type = ty, url = u, tags = tgs, origin = orig\<rparr>)"

record CachedDataSource =
  source :: DataSource
  rosdep_data :: "yaml option"

text \<open>\<open>CachedDataSource.__init__\<close> builds its \<open>DataSource\<close>, so it raises what that raises.\<close>

definition CachedDataSource_init ::
  "(string \<Rightarrow> parsed_url) \<Rightarrow> string \<Rightarrow> string \<Rightarrow> string list \<Rightarrow> yaml option \<Rightarrow> string option
     \<Rightarrow> error + CachedDataSource" where
  "CachedDataSource_init urlparse ty u tgs data orig =
     (case DataSource_init urlparse ty u tgs orig of
        Inl e \<Rightarrow> Inl e
      | Inr s \<Rightarrow> Inr \<lparr>source = s, rosdep_data = data\<rparr>)"

section \<open>DataSourceMatcher\<close>

text \<open>
  Python's \<open>any\<close> over a set of strings: true when some element is truthy, that is, is
  not the empty string.
\<close>

definition any_str :: "string set \<Rightarrow> bool" where
  "any_str S \<longleftrightarrow> (\<exists>t\<in>S. t \<noteq> [])"

text \<open>
  \<open>DataSourceMatcher.matches\<close>: \<open>not any(set(rosdep_data_source.tags) - set(self.tags))\<close>.
  The matcher is its list of tags.
\<close>

definition matches :: "string list \<Rightarrow> DataSource \<Rightarrow> bool" where
  "matches self_tags rosdep_data_source \<longleftrightarrow>
     \<not> any_str (set (tags rosdep_data_source) - set self_tags)"

section \<open>parse\_sources\_data\<close>

text \<open>
  The loop over the lines of the document, with the list \<open>sources\<close> built so far. \<open>model\<close>
  is the constructor the caller passes (by default \<open>DataSource\<close>); a \<open>ValueError\<close> of it
  becomes \<open>InvalidData\<close>, any other exception passes through.
\<close>

fun parse_lines ::
  "(string \<Rightarrow> string \<Rightarrow> string list \<Rightarrow> string option \<Rightarrow> error + 'a) \<Rightarrow> string \<Rightarrow> 'a list
     \<Rightarrow> string list \<Rightarrow> error + 'a list" where
  "parse_lines model orig sources [] = Inr sources"
| "parse_lines model orig sources (l # ls) =
     (let line = strip l in
      if line = [] \<or> startswith line ''#'' then parse_lines model orig sources ls
      else
        let splits = split_on CHR '' '' line in
        if length splits < 2
        then Inl (InvalidData (''invalid line:'' @ [CHR 0x0A] @ line) (Some orig))
        else
          (case model (splits ! 0) (splits ! 1) (drop 2 splits) (Some orig) of
             Inr s \<Rightarrow> parse_lines model orig (sources @ [s]) ls
           | Inl (ValueError e) \<Rightarrow>
               Inl (InvalidData
                 (''line:'' @ [CHR 0x0A, CHR 0x09] @ line @ [CHR 0x0A] @ e) (Some orig))
           | Inl e \<Rightarrow> Inl e))"

definition parse_sources_data ::
  "string \<Rightarrow> string \<Rightarrow> (string \<Rightarrow> string \<Rightarrow> string list \<Rightarrow> string option \<Rightarrow> error + 'a)
     \<Rightarrow> error + 'a list" where
  "parse_sources_data data orig model = parse_lines model orig [] (split_on (CHR 0x0A) data)"

section \<open>SourcesListLoader\<close>

definition ALL_VIEW_KEY :: string where
  "ALL_VIEW_KEY = ''sources.list''"

record SourcesListLoader =
  sources :: "CachedDataSource list"

definition get_loadable_views :: "SourcesListLoader \<Rightarrow> string list" where
  "get_loadable_views self = map (\<lambda>x. url (source x)) (sources self)"

text \<open>
  \<open>any([x for x in self.sources if view_name == x.url])\<close>: the elements are objects,
  which are all truthy, so \<open>any\<close> holds when the list is not empty.
\<close>

definition get_view_dependencies :: "SourcesListLoader \<Rightarrow> string \<Rightarrow> string list" where
  "get_view_dependencies self view_name =
     (if view_name \<noteq> ALL_VIEW_KEY
         \<and> filter (\<lambda>x. view_name = url (source x)) (sources self) \<noteq> []
      then []
      else map (\<lambda>x. url (source x)) (sources self))"

definition get_source :: "SourcesListLoader \<Rightarrow> string \<Rightarrow> error + CachedDataSource" where
  "get_source self view_name =
     (case filter (\<lambda>x. url (source x) = view_name) (sources self) of
        [] \<Rightarrow> Inl (ResourceNotFound view_name)
      | m # ms \<Rightarrow> Inr m)"

text \<open>
  \<open>load_view\<close>. The database is the collaborator \<open>RosdepDatabase\<close>, which is not among
  the sources: its two methods are the parameters \<open>is_loaded\<close> and \<open>set_view_data\<close>, and
  its state is passed through.
\<close>

definition load_view ::
  "('db \<Rightarrow> string \<Rightarrow> bool) \<Rightarrow> ('db \<Rightarrow> string \<Rightarrow> yaml option \<Rightarrow> string list \<Rightarrow> string \<Rightarrow> 'db)
     \<Rightarrow> SourcesListLoader \<Rightarrow> string \<Rightarrow> 'db \<Rightarrow> error + 'db" where
  "load_view is_loaded set_view_data self view_name rosdep_db =
     (if is_loaded rosdep_db view_name then Inr rosdep_db
      else
        (case get_source self view_name of
           Inl e \<Rightarrow> Inl e
         | Inr src \<Rightarrow>
             let view_dependencies = get_view_dependencies self view_name in
             Inr (set_view_data rosdep_db view_name (rosdep_data src) view_dependencies
                    view_name)))"

text \<open>
  The sources a loader holds are \<open>CachedDataSource\<close> objects, which exist only when
  their constructor accepted the fields: \<open>constructed\<close> says so for one of them.
\<close>

definition constructed :: "(string \<Rightarrow> parsed_url) \<Rightarrow> CachedDataSource \<Rightarrow> bool" where
  "constructed urlparse x \<longleftrightarrow>
     CachedDataSource_init urlparse (type (source x)) (url (source x)) (tags (source x))
       (rosdep_data x) (origin (source x)) = Inr x"

fun is_ValueError :: "error \<Rightarrow> bool" where
  "is_ValueError (ValueError m) = True"
| "is_ValueError e = False"

section \<open>The file system\<close>

text \<open>
  The directories that exist, and the files with their contents (an association list from
  path to text). Reading a missing file is an error of the caller; writing is taken to
  succeed (a cache directory that cannot be written is outside the model).
\<close>

record filesystem =
  dirs :: "string list"
  files :: "(string \<times> string) list"

definition path_exists :: "filesystem \<Rightarrow> string \<Rightarrow> bool" where
  "path_exists f p \<longleftrightarrow> p \<in> set (dirs f) \<or> p \<in> set (map fst (files f))"

definition read_file :: "filesystem \<Rightarrow> string \<Rightarrow> string option" where
  "read_file f p = map_of (files f) p"

definition write_file :: "string \<Rightarrow> string \<Rightarrow> filesystem \<Rightarrow> filesystem" where
  "write_file p text f = f\<lparr>files := AList.update p text (files f)\<rparr>"

definition makedirs :: "string \<Rightarrow> filesystem \<Rightarrow> filesystem" where
  "makedirs d f = f\<lparr>dirs := d # dirs f\<rparr>"

text \<open>\<open>os.path.join(a, b)\<close> for two components.\<close>

definition path_join :: "string \<Rightarrow> string \<Rightarrow> string" where
  "path_join a b =
     (if startswith b ''/'' then b
      else if a = [] \<or> endswith a ''/'' then a @ b
      else a @ ''/'' @ b)"

text \<open>
  \<open>os.listdir(d)\<close>: the names of the files and directories directly inside \<open>d\<close>. The
  order is the file system's; the code sorts the names before it uses them.
\<close>

definition listdir :: "filesystem \<Rightarrow> string \<Rightarrow> string list" where
  "listdir f d =
     (let pre = path_join d [] in
      remdups
        (map (drop (length pre))
          (filter (\<lambda>p. startswith p pre \<and> drop (length pre) p \<noteq> []
                       \<and> CHR ''/'' \<notin> set (drop (length pre) p))
             (map fst (files f) @ dirs f))))"

section \<open>Reading the sources list directory\<close>

text \<open>
  \<open>parse_sources_file\<close>: an \<open>IOError\<close> on opening the file becomes \<open>InvalidData\<close>; the
  text of the operating system's message is not modelled.
\<close>

definition parse_sources_file ::
  "(string \<Rightarrow> parsed_url) \<Rightarrow> filesystem \<Rightarrow> string \<Rightarrow> error + DataSource list" where
  "parse_sources_file urlparse f filepath =
     (case read_file f filepath of
        None \<Rightarrow> Inl (InvalidData ''I/O error reading sources file'' (Some filepath))
      | Some text \<Rightarrow> parse_sources_data text filepath (DataSource_init urlparse))"

text \<open>The loop of \<open>parse_sources_list\<close> over the sorted file names.\<close>

fun parse_files ::
  "(string \<Rightarrow> parsed_url) \<Rightarrow> filesystem \<Rightarrow> string \<Rightarrow> DataSource list \<Rightarrow> string list
     \<Rightarrow> error + DataSource list" where
  "parse_files urlparse f d sources_list [] = Inr sources_list"
| "parse_files urlparse f d sources_list (n # ns) =
     (case parse_sources_file urlparse f (path_join d n) of
        Inl e \<Rightarrow> Inl e
      | Inr ss \<Rightarrow> parse_files urlparse f d (sources_list @ ss) ns)"

definition parse_sources_list ::
  "(string \<Rightarrow> parsed_url) \<Rightarrow> filesystem \<Rightarrow> string \<Rightarrow> error + DataSource list" where
  "parse_sources_list urlparse f sources_list_dir =
     (if \<not> path_exists f sources_list_dir then Inr []
      else
        let filelist = filter (\<lambda>n. endswith n ''.list'') (listdir f sources_list_dir)
        in parse_files urlparse f sources_list_dir [] (sort filelist))"

section \<open>Downloading and caching\<close>

text \<open>
  What the update reads from outside the repository's sources: the network
  (\<open>urllib2.urlopen(url, timeout).read()\<close>), the YAML library (\<open>safe_load\<close>,
  \<open>safe_dump\<close>), SHA-1, and the repository's \<open>download_gbpdistro_as_rosdep_data\<close>,
  whose source is not given. They are the fields of the environment. A call that raises
  gives \<open>Inl\<close> of the exception: for the network \<open>URLError\<close> (no route, refused
  connection, HTTP status), but also \<open>socket.timeout\<close> when the server stalls during
  \<open>read()\<close> and \<open>httplib.HTTPException\<close> (a bad status line, an incomplete read),
  which are not \<open>URLError\<close>s; for the loader \<open>YAMLError\<close>.
\<close>

record environment =
  urlopen_read :: "string \<Rightarrow> error + string"
  yaml_safe_load :: "string \<Rightarrow> error + yaml"
  yaml_safe_dump :: "yaml \<Rightarrow> string"
  sha1_hexdigest :: "string \<Rightarrow> string"
  download_gbpdistro_as_rosdep_data :: "string \<Rightarrow> error + yaml"

text \<open>The body of the \<open>try\<close> in \<open>download_rosdep_data\<close>.\<close>

definition read_rosdep_data :: "environment \<Rightarrow> string \<Rightarrow> error + yaml" where
  "read_rosdep_data env u =
     (case urlopen_read env u of
        Inl e \<Rightarrow> Inl e
      | Inr text \<Rightarrow>
          (case yaml_safe_load env text of
             Inl e \<Rightarrow> Inl e
           | Inr data \<Rightarrow>
               if \<not> is_dict data
               then Inl (DownloadFailure
                      (''rosdep data from ['' @ u @ ''] is not a YAML dictionary''))
               else Inr data))"

text \<open>
  \<open>download_rosdep_data\<close>: the two \<open>except\<close> clauses turn \<open>URLError\<close> and
  \<open>YAMLError\<close> into \<open>DownloadFailure\<close> with the exception's text; every other
  exception of the body leaves the function as it is.
\<close>

definition download_rosdep_data :: "environment \<Rightarrow> string \<Rightarrow> error + yaml" where
  "download_rosdep_data env u =
     (case read_rosdep_data env u of
        Inl (URLError m) \<Rightarrow> Inl (DownloadFailure m)
      | Inl (YAMLError m) \<Rightarrow> Inl (DownloadFailure m)
      | Inl e \<Rightarrow> Inl e
      | Inr data \<Rightarrow> Inr data)"

definition compute_filename_hash :: "environment \<Rightarrow> string \<Rightarrow> string" where
  "compute_filename_hash env filename_key = sha1_hexdigest env filename_key"

definition write_cache_file ::
  "environment \<Rightarrow> string \<Rightarrow> string \<Rightarrow> yaml \<Rightarrow> filesystem \<Rightarrow> string \<times> filesystem" where
  "write_cache_file env source_cache_d filename_key data f =
     (let f1 = (if \<not> path_exists f source_cache_d then makedirs source_cache_d f else f);
          key_hash = compute_filename_hash env filename_key;
          filepath = path_join source_cache_d key_hash
      in (filepath, write_file filepath (yaml_safe_dump env data) f1))"

section \<open>update\_sources\_list\<close>

text \<open>
  The two handlers are callables or \<open>None\<close>. A handler is modelled by the record of its
  invocations: the flag says whether the caller passed one, and each call is appended to
  the trace with its arguments.
\<close>

datatype callback = Success_call DataSource | Error_call DataSource string

record update_state =
  fs :: filesystem
  calls :: "callback list"

text \<open>
  The loop over the sources. \<open>prev\<close> is the local variable \<open>rosdep_data\<close>, which keeps
  its value from one iteration to the next: a source whose type is neither of the two
  assigns nothing, so the code reads the stale value or fails on the unbound name.
  Only \<open>DownloadFailure\<close> is caught; any other error ends the update.
\<close>

fun fetch_all ::
  "environment \<Rightarrow> string \<Rightarrow> bool \<Rightarrow> bool \<Rightarrow> DataSource list \<Rightarrow> yaml option
     \<Rightarrow> (DataSource \<times> string) list \<Rightarrow> update_state
     \<Rightarrow> (error + (DataSource \<times> string) list) \<times> update_state" where
  "fetch_all env sources_cache_dir success_handler error_handler [] prev retval st =
     (Inr retval, st)"
| "fetch_all env sources_cache_dir success_handler error_handler (src # rest) prev retval st =
     (case (if type src = TYPE_YAML then download_rosdep_data env (url src)
            else if type src = TYPE_GBPDISTRO
            then download_gbpdistro_as_rosdep_data env (url src)
            else (case prev of None \<Rightarrow> Inl UnboundLocalError | Some d \<Rightarrow> Inr d)) of
        Inr data \<Rightarrow>
          (case write_cache_file env sources_cache_dir (url src) data (fs st) of
             (filepath, f') \<Rightarrow>
               fetch_all env sources_cache_dir success_handler error_handler rest (Some data)
                 (retval @ [(src, filepath)])
                 (st\<lparr>fs := f',
                     calls := calls st @ (if success_handler then [Success_call src] else [])\<rparr>))
      | Inl (DownloadFailure m) \<Rightarrow>
          fetch_all env sources_cache_dir success_handler error_handler rest prev retval
            (st\<lparr>calls := calls st @ (if error_handler then [Error_call src m] else [])\<rparr>)
      | Inl e \<Rightarrow> (Inl e, st))"

definition index_header :: string where
  "index_header =
     ''#autogenerated by rosdep, do not edit. use 'rosdep update' instead'' @ [CHR 0x0A]"

definition index_line :: "DataSource \<Rightarrow> string" where
  "index_line src = ''yaml '' @ url src @ '' '' @ join '' '' (tags src) @ [CHR 0x0A]"

text \<open>The end of \<open>update_sources_list\<close>: the index of all the sources.\<close>

definition write_cache_index :: "string \<Rightarrow> DataSource list \<Rightarrow> filesystem \<Rightarrow> filesystem" where
  "write_cache_index sources_cache_dir srcs f =
     (let f1 = (if \<not> path_exists f sources_cache_dir then makedirs sources_cache_dir f else f);
          cache_index = path_join sources_cache_dir ''index''
      in write_file cache_index (index_header @ concat (map index_line srcs)) f1)"

definition update_sources_list ::
  "environment \<Rightarrow> (string \<Rightarrow> parsed_url) \<Rightarrow> string \<Rightarrow> string \<Rightarrow> bool \<Rightarrow> bool \<Rightarrow> update_state
     \<Rightarrow> (error + (DataSource \<times> string) list) \<times> update_state" where
  "update_sources_list env urlparse sources_list_dir sources_cache_dir success_handler
       error_handler st =
     (case parse_sources_list urlparse (fs st) sources_list_dir of
        Inl e \<Rightarrow> (Inl e, st)
      | Inr srcs \<Rightarrow>
          (case fetch_all env sources_cache_dir success_handler error_handler srcs None [] st of
             (Inl e, st') \<Rightarrow> (Inl e, st')
           | (Inr retval, st') \<Rightarrow>
               (Inr retval, st'\<lparr>fs := write_cache_index sources_cache_dir srcs (fs st')\<rparr>)))"

text \<open>
  For stating what the update does: the fetch of one source of a valid type, the cache
  file of a source, and the handler calls one source gives rise to.
\<close>

definition fetch :: "environment \<Rightarrow> DataSource \<Rightarrow> error + yaml" where
  "fetch env src =
     (if type src = TYPE_YAML then download_rosdep_data env (url src)
      else download_gbpdistro_as_rosdep_data env (url src))"

definition cache_file :: "environment \<Rightarrow> string \<Rightarrow> DataSource \<Rightarrow> string" where
  "cache_file env sources_cache_dir src =
     path_join sources_cache_dir (compute_filename_hash env (url src))"

fun is_DownloadFailure :: "error \<Rightarrow> bool" where
  "is_DownloadFailure (DownloadFailure m) = True"
| "is_DownloadFailure e = False"

definition succeeded :: "environment \<Rightarrow> DataSource \<Rightarrow> bool" where
  "succeeded env src \<longleftrightarrow> (case fetch env src of Inr d \<Rightarrow> True | Inl e \<Rightarrow> False)"

definition report :: "environment \<Rightarrow> bool \<Rightarrow> bool \<Rightarrow> DataSource \<Rightarrow> callback list" where
  "report env success_handler error_handler src =
     (case fetch env src of
        Inr d \<Rightarrow> if success_handler then [Success_call src] else []
      | Inl (DownloadFailure m) \<Rightarrow> if error_handler then [Error_call src m] else []
      | Inl e \<Rightarrow> [])"

definition cache_source :: "environment \<Rightarrow> string \<Rightarrow> filesystem \<Rightarrow> DataSource \<Rightarrow> filesystem" where
  "cache_source env sources_cache_dir f src =
     (case fetch env src of
        Inr d \<Rightarrow> snd (write_cache_file env sources_cache_dir (url src) d f)
      | Inl e \<Rightarrow> f)"

section \<open>platforms/jfrog.py: manifests\<close>

definition JFROG_INSTALLER :: string where
  "JFROG_INSTALLER = ''jfrog''"

text \<open>\<open>str(n)\<close> for an integer, as the format strings print a return code.\<close>

fun str_nat :: "nat \<Rightarrow> string" where
  "str_nat n =
     (if n < 10 then [char_of (48 + n)]
      else str_nat (n div 10) @ [char_of (48 + n mod 10)])"

declare str_nat.simps [simp del]

definition str_int :: "int \<Rightarrow> string" where
  "str_int i = (if i < 0 then ''-'' @ str_nat (nat (- i)) else str_nat (nat i))"

text \<open>\<open>s[-n:]\<close>: the last \<open>n\<close> elements, or all of them when there are fewer.\<close>

definition last_n :: "nat \<Rightarrow> 'a list \<Rightarrow> 'a list" where
  "last_n n xs = drop (length xs - n) xs"


text \<open>
  A manifest document as \<open>yaml.safe_load\<close> returns it. A mapping is read through its
  keys \<open>uri\<close>, \<open>alternate-uri\<close>, \<open>md5sum\<close>, \<open>install-script\<close>, \<open>check-presence-script\<close>,
  \<open>exec-path\<close> and \<open>depends\<close>, each absent (\<open>None\<close>) or present with a value of the type
  the recipe format gives it. A document that is not a mapping has no \<open>get\<close>.
\<close>

record rdmanifest =
  m_uri :: "string option"
  m_alternate_uri :: "string option"
  m_md5sum :: "string option"
  m_install_script :: "string option"
  m_check_presence_script :: "string option"
  m_exec_path :: "string option"
  m_depends :: "string list option"

datatype manifest_doc = Mapping rdmanifest | NotMapping

record JFrogInstall =
  manifest :: rdmanifest
  manifest_url :: string
  install_command :: string
  check_presence_command :: string
  exec_path :: string
  tarball :: string
  alternate_tarball :: "string option"
  tarball_md5sum :: "string option"
  dependencies :: "string list"

text \<open>\<open>dict.get(key, default)\<close> on one of the keys.\<close>

definition get_default :: "'a option \<Rightarrow> 'a \<Rightarrow> 'a" where
  "get_default v d = (case v of None \<Rightarrow> d | Some x \<Rightarrow> x)"

definition from_manifest :: "manifest_doc \<Rightarrow> string \<Rightarrow> error + JFrogInstall" where
  "from_manifest doc murl =
     (case doc of
        NotMapping \<Rightarrow> Inl AttributeError
      | Mapping m \<Rightarrow>
          (case m_uri m of
             None \<Rightarrow> Inl (InvalidRdmanifest ''uri required for source rosdeps'')
           | Some u \<Rightarrow>
               Inr \<lparr>manifest = m, manifest_url = murl,
                    install_command = get_default (m_install_script m) '''',
                    check_presence_command = get_default (m_check_presence_script m) '''',
                    exec_path = get_default (m_exec_path m) ''.'',
                    tarball = u,
                    alternate_tarball = m_alternate_uri m,
                    tarball_md5sum = m_md5sum m,
                    dependencies = get_default (m_depends m) []\<rparr>))"

section \<open>The installer's world\<close>

text \<open>
  What \<open>jfrog.py\<close> reads from outside: the \<open>jf rt dl\<close> command (its argument and the
  file system give the return code and the file system after it), MD5, the YAML loader
  (\<open>Inl\<close> is the message of the \<open>ScannerError\<close> it raises), \<open>tarfile\<close> (open, extract into a
  directory, close; \<open>Some\<close> is the message of the exception raised on the way) and the
  repository's \<open>create_tempfile_from_string_and_execute\<close>, whose source is not given
  (script and working directory give success or failure).
\<close>

record jfrog_env =
  jf_rt_dl :: "string \<Rightarrow> filesystem \<Rightarrow> int \<times> filesystem"
  md5_hexdigest :: "string \<Rightarrow> string"
  safe_load :: "string \<Rightarrow> string + manifest_doc"
  tarfile_extractall :: "string \<Rightarrow> string \<Rightarrow> filesystem \<Rightarrow> string option \<times> filesystem"
  create_tempfile_from_string_and_execute :: "string \<Rightarrow> string \<Rightarrow> filesystem \<Rightarrow> bool \<times> filesystem"

text \<open>
  The state: the installer's \<open>_rdmanifest_cache\<close>, the file system, the list objects
  that callers share with the installer (by address), and a log of the URLs for which
  the download command was run, kept to count downloads.
\<close>

record jfrog_state =
  rdmanifest_cache :: "string \<rightharpoonup> JFrogInstall list"
  jfs :: filesystem
  downloads :: "string list"
  heap :: "nat \<Rightarrow> string list"
  next_addr :: nat

text \<open>
  \<open>_sub_fetch_file\<close>. The \<open>except DownloadFailed\<close> clause raises the same message again;
  \<open>IndexError\<close> (a URL with fewer than five components) and \<open>IOError\<close> (the downloaded
  file cannot be opened) are not caught.
\<close>

definition sub_fetch_file ::
  "jfrog_env \<Rightarrow> string \<Rightarrow> string option \<Rightarrow> jfrog_state \<Rightarrow> (error + string) \<times> jfrog_state" where
  "sub_fetch_file env u md5sum st =
     (let s = split_on CHR ''/'' u in
      if length s < 5 then (Inl IndexError, st)
      else
        let repo = s ! 4;
            f = join ''/'' (last_n 4 s)
        in (case jf_rt_dl env (repo @ ''/'' @ f) (jfs st) of
              (returncode, fs') \<Rightarrow>
                let st' = st\<lparr>jfs := fs', downloads := downloads st @ [u]\<rparr> in
                if returncode \<noteq> 0
                then (Inl (DownloadFailed (''jfrog download returned '' @ str_int returncode)), st')
                else
                  (case read_file fs' f of
                     None \<Rightarrow> (Inl (IOError f), st')
                   | Some contents \<Rightarrow>
                       (case md5sum of
                          None \<Rightarrow> (Inr contents, st')
                        | Some expected \<Rightarrow>
                            let filehash = md5_hexdigest env contents in
                            if expected \<noteq> [] \<and> filehash \<noteq> expected
                            then (Inl (DownloadFailed
                                   (''md5sum didn't match for '' @ u @ ''.  Expected ''
                                      @ expected @ '' got '' @ filehash)), st')
                            else (Inr contents, st')))))"

text \<open>\<open>fetch_file\<close> returns the pair \<open>(contents, error)\<close>; a \<open>DownloadFailed\<close> gives
  empty contents and the message.\<close>

definition fetch_file ::
  "jfrog_env \<Rightarrow> string \<Rightarrow> string option \<Rightarrow> jfrog_state
     \<Rightarrow> (error + string \<times> string) \<times> jfrog_state" where
  "fetch_file env u md5sum st =
     (case sub_fetch_file env u md5sum st of
        (Inr contents, st') \<Rightarrow> (Inr (contents, []), st')
      | (Inl (DownloadFailed e), st') \<Rightarrow> (Inr ([], e), st')
      | (Inl e, st') \<Rightarrow> (Inl e, st'))"

definition load_rdmanifest :: "jfrog_env \<Rightarrow> string \<Rightarrow> error + manifest_doc" where
  "load_rdmanifest env contents =
     (case safe_load env contents of
        Inl ex \<Rightarrow> Inl (InvalidRdmanifest
                   (''Failed to parse yaml in '' @ contents @ '':  Error: '' @ ex))
      | Inr doc \<Rightarrow> Inr doc)"

text \<open>The mirror to try: \<open>alt_url\<close> when it is given and not empty.\<close>

definition if_truthy :: "string option \<Rightarrow> string option" where
  "if_truthy v = (case v of None \<Rightarrow> None | Some s \<Rightarrow> if s = [] then None else Some s)"

definition download_rdmanifest ::
  "jfrog_env \<Rightarrow> string \<Rightarrow> string option \<Rightarrow> string option \<Rightarrow> jfrog_state
     \<Rightarrow> (error + manifest_doc \<times> string) \<times> jfrog_state" where
  "download_rdmanifest env u md5sum alt_url st =
     (case fetch_file env u md5sum st of
        (Inl e, st1) \<Rightarrow> (Inl e, st1)
      | (Inr (contents, err), st1) \<Rightarrow>
          (case (case (if contents = [] then if_truthy alt_url else None) of
                   Some alt \<Rightarrow>
                     (case fetch_file env alt md5sum st1 of
                        (Inl e, st2) \<Rightarrow> (Inl e, st2)
                      | (Inr (contents2, err2), st2) \<Rightarrow>
                          (Inr (''Failed to load a rdmanifest from either '' @ u @ '' or ''
                                  @ alt @ '': '',
                                alt, contents2, err2), st2))
                 | None \<Rightarrow>
                     (Inr (''Failed to load a rdmanifest from '' @ u @ '': '',
                           u, contents, err), st1)) of
             (Inl e, st2) \<Rightarrow> (Inl e, st2)
           | (Inr (error_prefix, download_url, contents', err'), st2) \<Rightarrow>
               if contents' = [] then (Inl (DownloadFailed (error_prefix @ err')), st2)
               else
                 (case load_rdmanifest env contents' of
                    Inl e \<Rightarrow> (Inl e, st2)
                  | Inr doc \<Rightarrow> (Inr (doc, download_url), st2))))"

section \<open>JFrogInstaller\<close>

text \<open>
  The argument dictionary of \<open>resolve\<close> and \<open>get_depends\<close>, through the keys they read.
  The value of \<open>depends\<close> is a list object of the caller: its address.
\<close>

record rosdep_args =
  a_uri :: "string option"
  a_alternate_uri :: "string option"
  a_md5sum :: "string option"
  a_depends :: "nat option"

text \<open>
  The \<open>try\<close> block of \<open>resolve\<close>: download, build the \<open>JFrogInstall\<close>, store it in the
  cache under the URL it came from. \<open>DownloadFailed\<close> and \<open>InvalidRdmanifest\<close> become
  \<open>InvalidData\<close>; nothing is stored then.
\<close>

definition resolve_download ::
  "jfrog_env \<Rightarrow> string \<Rightarrow> string option \<Rightarrow> string option \<Rightarrow> jfrog_state
     \<Rightarrow> (error + JFrogInstall list) \<times> jfrog_state" where
  "resolve_download env u md5sum alt_url st =
     (case download_rdmanifest env u md5sum alt_url st of
        (Inl (DownloadFailed ex), st') \<Rightarrow> (Inl (InvalidData ex None), st')
      | (Inl (InvalidRdmanifest ex), st') \<Rightarrow> (Inl (InvalidData ex None), st')
      | (Inl e, st') \<Rightarrow> (Inl e, st')
      | (Inr (doc, download_url), st') \<Rightarrow>
          (case from_manifest doc download_url of
             Inl (InvalidRdmanifest ex) \<Rightarrow> (Inl (InvalidData ex None), st')
           | Inl e \<Rightarrow> (Inl e, st')
           | Inr resolved \<Rightarrow>
               (Inr [resolved],
                st'\<lparr>rdmanifest_cache :=
                      (rdmanifest_cache st')(download_url \<mapsto> [resolved])\<rparr>)))"

text \<open>
  \<open>resolve\<close>: the cache is looked up under the primary URL, then under the mirror URL
  (a missing \<open>alternate-uri\<close> is \<open>None\<close>, which is no key of the cache).
\<close>

definition resolve ::
  "jfrog_env \<Rightarrow> rosdep_args \<Rightarrow> jfrog_state \<Rightarrow> (error + JFrogInstall list) \<times> jfrog_state" where
  "resolve env args st =
     (case a_uri args of
        None \<Rightarrow>
          (Inl (InvalidData ([CHR 0x27] @ ''uri'' @ [CHR 0x27]
                  @ '' key required for source rosdeps'') None), st)
      | Some u \<Rightarrow>
          let alt_url = a_alternate_uri args;
              md5sum = a_md5sum args
          in (case rdmanifest_cache st u of
                Some cached \<Rightarrow> (Inr cached, st)
              | None \<Rightarrow>
                  (case alt_url of
                     None \<Rightarrow> resolve_download env u md5sum alt_url st
                   | Some alt \<Rightarrow>
                       (case rdmanifest_cache st alt of
                          Some cached \<Rightarrow> (Inr cached, st)
                        | None \<Rightarrow> resolve_download env u md5sum alt_url st))))"

text \<open>\<open>deps.extend(r.dependencies)\<close> on the list object at address \<open>p\<close>.\<close>

definition extend :: "nat \<Rightarrow> jfrog_state \<Rightarrow> JFrogInstall \<Rightarrow> jfrog_state" where
  "extend p st r = st\<lparr>heap := (heap st)(p := heap st p @ dependencies r)\<rparr>"

text \<open>
  \<open>get_depends\<close>. \<open>rosdep_args.get('depends', [])\<close> is the caller's list object when the
  key is present and a new empty list otherwise; the result is the address of \<open>deps\<close>.
\<close>

definition get_depends ::
  "jfrog_env \<Rightarrow> rosdep_args \<Rightarrow> jfrog_state \<Rightarrow> (error + nat) \<times> jfrog_state" where
  "get_depends env args st =
     (case (case a_depends args of
              Some p \<Rightarrow> (p, st)
            | None \<Rightarrow> (next_addr st,
                       st\<lparr>heap := (heap st)(next_addr st := []),
                          next_addr := Suc (next_addr st)\<rparr>)) of
        (deps, st0) \<Rightarrow>
          (case resolve env args st0 of
             (Inl e, st1) \<Rightarrow> (Inl e, st1)
           | (Inr rs, st1) \<Rightarrow> (Inr deps, foldl (extend deps) st1 rs)))"


section \<open>install\_source\<close>

text \<open>\<open>os.path.dirname\<close>: the part before the last slash, without trailing slashes.\<close>

definition dirname :: "string \<Rightarrow> string" where
  "dirname p =
     (let head = rev (dropWhile (\<lambda>c. c \<noteq> CHR ''/'') (rev p)) in
      if head \<noteq> [] \<and> head \<noteq> replicate (length head) (CHR ''/'')
      then rev (dropWhile (\<lambda>c. c = CHR ''/'') (rev head))
      else head)"

definition inside :: "string \<Rightarrow> string \<Rightarrow> bool" where
  "inside d p \<longleftrightarrow> p = d \<or> startswith p (d @ ''/'')"

text \<open>
  \<open>shutil.rmtree(d)\<close>: removes the directory and all below it; raises when \<open>d\<close> is not
  an existing directory.
\<close>

definition rmtree :: "string \<Rightarrow> filesystem \<Rightarrow> error + filesystem" where
  "rmtree d f =
     (if d \<in> set (dirs f)
      then Inr (f\<lparr>dirs := filter (\<lambda>p. \<not> inside d p) (dirs f),
                  files := filter (\<lambda>(p, c). \<not> inside d p) (files f)\<rparr>)
      else Inl (OSError d))"

text \<open>
  \<open>jfrog_urlretrieve\<close>: every exception inside, also the \<open>IndexError\<close> of a short URL, is
  swallowed by the bare \<open>except\<close> and gives the pair of empty strings.
\<close>

definition jfrog_urlretrieve ::
  "jfrog_env \<Rightarrow> string \<Rightarrow> jfrog_state \<Rightarrow> (string \<times> string) \<times> jfrog_state" where
  "jfrog_urlretrieve env u st =
     (let s = split_on CHR ''/'' u in
      if length s < 5 then (([], []), st)
      else
        let repo = s ! 4;
            f = join ''/'' (last_n 4 s)
        in (case jf_rt_dl env (repo @ ''/'' @ f) (jfs st) of
              (returncode, fs') \<Rightarrow>
                let st' = st\<lparr>jfs := fs', downloads := downloads st @ [u]\<rparr> in
                if returncode = 0 then ((f, []), st') else (([], []), st')))"

text \<open>
  \<open>get_file_hash\<close>: \<open>open(filename, 'rb')\<close> raises \<open>IOError\<close> when there is no such
  file; the empty name, which \<open>jfrog_urlretrieve\<close> returns for a failed download, names
  no file.
\<close>

definition get_file_hash :: "jfrog_env \<Rightarrow> string \<Rightarrow> filesystem \<Rightarrow> error + string" where
  "get_file_hash env filename f =
     (if filename = [] then Inl (IOError filename)
      else
        (case read_file f filename of
           None \<Rightarrow> Inl (IOError filename)
         | Some contents \<Rightarrow> Inr (md5_hexdigest env contents)))"

text \<open>
  The checksum block of \<open>install_source\<close> (\<open>if resolved.tarball_md5sum: ...\<close>). It gives
  the name of the file to unpack: the primary tarball, or the alternate one after a
  mismatch on the primary.
\<close>

definition verify_md5sum ::
  "jfrog_env \<Rightarrow> JFrogInstall \<Rightarrow> string \<Rightarrow> jfrog_state \<Rightarrow> (error + string) \<times> jfrog_state" where
  "verify_md5sum env resolved filename st =
     (case if_truthy (tarball_md5sum resolved) of
        None \<Rightarrow> (Inr filename, st)
      | Some md5sum \<Rightarrow>
          (case get_file_hash env filename (jfs st) of
             Inl e \<Rightarrow> (Inl e, st)
           | Inr hash1 \<Rightarrow>
               if md5sum \<noteq> hash1
               then
                 (case if_truthy (alternate_tarball resolved) of
                    Some alt \<Rightarrow>
                      (case jfrog_urlretrieve env alt st of
                         (f, st') \<Rightarrow>
                           (case get_file_hash env (fst f) (jfs st') of
                              Inl e \<Rightarrow> (Inl e, st')
                            | Inr hash2 \<Rightarrow>
                                if md5sum \<noteq> hash2
                                then (Inl (InstallFailed JFROG_INSTALLER
                                       (''md5sum check on '' @ tarball resolved @ '' and '' @ alt
                                          @ '' failed.  Expected '' @ md5sum @ '' got '' @ hash1
                                          @ '' and '' @ hash2)), st')
                                else (Inr (fst f), st')))
                  | None \<Rightarrow>
                      (Inl (InstallFailed JFROG_INSTALLER
                         (''md5sum check on '' @ tarball resolved @ '' failed.  Expected ''
                            @ md5sum @ '' got '' @ hash1 @ '' '')), st))
               else (Inr filename, st)))"

text \<open>The body of the \<open>try\<close>: unpack unless the file is a \<open>.dmg\<close>, then run the script.\<close>

definition unpack_and_run ::
  "jfrog_env \<Rightarrow> JFrogInstall \<Rightarrow> string \<Rightarrow> string \<Rightarrow> jfrog_state \<Rightarrow> (error + unit) \<times> jfrog_state" where
  "unpack_and_run env resolved filename tempdir st =
     (case (if \<not> endswith filename ''.dmg''
            then tarfile_extractall env filename tempdir (jfs st)
            else (None, jfs st)) of
        (Some m, f1) \<Rightarrow> (Inl (ExtractError m), st\<lparr>jfs := f1\<rparr>)
      | (None, f1) \<Rightarrow>
          (case create_tempfile_from_string_and_execute env (install_command resolved)
                  (path_join tempdir (exec_path resolved)) f1 of
             (success, f2) \<Rightarrow>
               (if success then Inr ()
                else Inl (InstallFailed JFROG_INSTALLER
                       ''installation script returned with error code''),
                st\<lparr>jfs := f2\<rparr>)))"

text \<open>
  The \<open>finally\<close> clause: \<open>shutil.rmtree(tempdir)\<close> after the body, whatever its outcome;
  an exception of \<open>rmtree\<close> itself replaces the outcome.
\<close>

definition cleanup ::
  "string \<Rightarrow> (error + unit) \<times> jfrog_state \<Rightarrow> (error + unit) \<times> jfrog_state" where
  "cleanup tempdir x =
     (case x of
        (r, st) \<Rightarrow>
          (case rmtree tempdir (jfs st) of
             Inl e \<Rightarrow> (Inl e, st)
           | Inr f' \<Rightarrow> (r, st\<lparr>jfs := f'\<rparr>)))"

definition install_source ::
  "jfrog_env \<Rightarrow> JFrogInstall \<Rightarrow> jfrog_state \<Rightarrow> (error + unit) \<times> jfrog_state" where
  "install_source env resolved st =
     (let s = split_on CHR ''/'' (tarball resolved) in
      if length s < 5 then (Inl IndexError, st)
      else
        let filename = join ''/'' (last_n 4 s);
            tempdir = dirname filename
        in (case jfrog_urlretrieve env (tarball resolved) st of
              (f, st1) \<Rightarrow>
                if fst f \<noteq> filename then (Inl AssertionError, st1)
                else
                  (case verify_md5sum env resolved filename st1 of
                     (Inl e, st2) \<Rightarrow> (Inl e, st2)
                   | (Inr filename', st2) \<Rightarrow>
                       cleanup tempdir (unpack_and_run env resolved filename' tempdir st2))))"

section \<open>Concrete instances\<close>

text \<open>
  The theorems below take the library's URL parser and the database as parameters. To
  instantiate them at concrete inputs, this section fixes a small URL parser for URLs of
  the shape \<open>scheme://host/path\<close>, a database that records the registered views in a
  list, and some sample data.
\<close>

definition urlparse_sample :: "string \<Rightarrow> parsed_url" where
  "urlparse_sample u =
     (case split_on CHR ''/'' u of
        a # b # c # rest \<Rightarrow>
          if a \<noteq> [] \<and> last a = CHR '':'' \<and> b = []
          then \<lparr>scheme = butlast a, netloc = c, path = concat (map (\<lambda>p. ''/'' @ p) rest)\<rparr>
          else \<lparr>scheme = [], netloc = [], path = u\<rparr>
      | _ \<Rightarrow> \<lparr>scheme = [], netloc = [], path = u\<rparr>)"

type_synonym rosdep_db = "(string \<times> yaml option \<times> string list \<times> string) list"

definition db_is_loaded :: "rosdep_db \<Rightarrow> string \<Rightarrow> bool" where
  "db_is_loaded db view_name \<longleftrightarrow> view_name \<in> set (map fst db)"

definition db_set_view_data ::
  "rosdep_db \<Rightarrow> string \<Rightarrow> yaml option \<Rightarrow> string list \<Rightarrow> string \<Rightarrow> rosdep_db" where
  "db_set_view_data db view_name data deps orig = (view_name, data, deps, orig) # db"

definition sample_loader :: SourcesListLoader where
  "sample_loader = \<lparr>sources =
     [\<lparr>source = \<lparr>type = ''yaml'', url = ''http://example.org/a.yaml'', tags = [],
                  origin = Some ''index''\<rparr>, rosdep_data = None\<rparr>,
      \<lparr>source = \<lparr>type = ''yaml'', url = ''http://example.org/b.yaml'', tags = [''ubuntu''],
                  origin = Some ''index''\<rparr>, rosdep_data = Some (YDict [])\<rparr>]\<rparr>"

definition sample_list :: string where
  "sample_list = ''# rosdep sources'' @ [CHR 0x0A] @ ''yaml http://example.org/a.yaml''
     @ [CHR 0x0A] @ ''gbpdistro'' @ [CHR 0x0A] @ ''yaml http://example.org/b.yaml ubuntu''"

text \<open>A sources list whose lines are all accepted: a comment, an empty line, two entries.\<close>

definition sample_good_list :: string where
  "sample_good_list = ''# rosdep sources'' @ [CHR 0x0A] @ ''yaml http://example.org/a.yaml''
     @ [CHR 0x0A] @ [CHR 0x0A] @ ''  gbpdistro http://example.org/b.yaml ubuntu trusty''
     @ [CHR 0x0A]"

definition sample_env :: environment where
  "sample_env = \<lparr>
     urlopen_read = (\<lambda>u. if u = ''http://example.org/b.yaml'' then Inr ''{}''
                         else Inl (URLError ''<urlopen error timed out>'')),
     yaml_safe_load = (\<lambda>t. if t = ''{}'' then Inr (YDict [])
                           else Inl (YAMLError ''could not parse'')),
     yaml_safe_dump = (\<lambda>y. ''{}'' @ [CHR 0x0A]),
     sha1_hexdigest = (\<lambda>u. if u = ''http://example.org/a.yaml''
                             then ''a29a4b644cb41be7547135cf15015104cf3bad4c''
                           else if u = ''http://example.org/b.yaml''
                             then ''33d85f068de7e6d96206c24a7ef3f1e9f81bc17e''
                           else []),
     download_gbpdistro_as_rosdep_data = (\<lambda>u. Inl (DownloadFailure ''no gbpdistro''))\<rparr>"

text \<open>
  The same world, except that the server of \<open>a.yaml\<close> accepts the connection and then
  stalls: \<open>read()\<close> raises \<open>socket.timeout\<close>, which is not a \<open>URLError\<close>.
\<close>

definition sample_env_timeout :: environment where
  "sample_env_timeout = sample_env\<lparr>
     urlopen_read := (\<lambda>u. if u = ''http://example.org/b.yaml'' then Inr ''{}''
                          else Inl (SocketTimeout ''timed out''))\<rparr>"

definition sample_fs :: filesystem where
  "sample_fs = \<lparr>
     dirs = [''/etc/sources.list.d'', ''/cache''],
     files = [(''/etc/sources.list.d/20-default.list'',
                 ''yaml http://example.org/a.yaml'' @ [CHR 0x0A]
                   @ ''yaml http://example.org/b.yaml ubuntu'' @ [CHR 0x0A]),
              (''/cache/a29a4b644cb41be7547135cf15015104cf3bad4c'', ''{old: data}'')]\<rparr>"

definition sample_a :: DataSource where
  "sample_a = \<lparr>type = ''yaml'', url = ''http://example.org/a.yaml'', tags = [],
      origin = Some ''/etc/sources.list.d/20-default.list''\<rparr>"

definition sample_b :: DataSource where
  "sample_b = \<lparr>type = ''yaml'', url = ''http://example.org/b.yaml'', tags = [''ubuntu''],
      origin = Some ''/etc/sources.list.d/20-default.list''\<rparr>"

definition sample_state :: update_state where
  "sample_state = \<lparr>fs = sample_fs, calls = []\<rparr>"

text \<open>Sample data for the installer.\<close>

definition sample_tarball :: string where
  "sample_tarball = ''https://jf.io/artifactory/deps/tools/cg/3.1/cg.tar.gz''"

definition sample_mirror :: string where
  "sample_mirror = ''https://jf.io/artifactory/deps/mirror/cg/3.1/cg.tar.gz''"

definition sample_manifest_url :: string where
  "sample_manifest_url = ''https://jf.io/artifactory/deps/m/cg/3.1/cg.rdmanifest''"

definition sample_nouri_url :: string where
  "sample_nouri_url = ''https://jf.io/artifactory/deps/m/cg/3.1/nouri.rdmanifest''"

definition sample_manifest :: rdmanifest where
  "sample_manifest = \<lparr>
     m_uri = Some sample_tarball,
     m_alternate_uri = Some sample_mirror,
     m_md5sum = Some ''3416a8fc7d3487b883fbaba2492e8cb6'',
     m_install_script = Some ''make install'',
     m_check_presence_script = Some ''test -f /usr/lib/libCg.so'',
     m_exec_path = None,
     m_depends = Some [''boost'', ''zlib'']\<rparr>"

definition sample_nouri_manifest :: rdmanifest where
  "sample_nouri_manifest = \<lparr>
     m_uri = None, m_alternate_uri = None, m_md5sum = None,
     m_install_script = Some ''make install'', m_check_presence_script = None,
     m_exec_path = None, m_depends = Some [''boost'']\<rparr>"

text \<open>
  The installer's sample world. \<open>jf rt dl\<close> knows two manifests and two tarballs and
  fails for anything else. A tarball unpacks to the single file \<open>payload\<close> with the
  tarball's bytes, and the script \<open>make install\<close>, run in the unpacked directory, copies
  that file to \<open>/usr/lib/libCg.so\<close>; any other script fails.
\<close>

definition sample_jfrog_env :: jfrog_env where
  "sample_jfrog_env = \<lparr>
     jf_rt_dl = (\<lambda>arg f.
       if arg = ''deps/m/cg/3.1/cg.rdmanifest''
       then (0, write_file ''m/cg/3.1/cg.rdmanifest'' ''uri: cg'' (makedirs ''m/cg/3.1'' f))
       else if arg = ''deps/m/cg/3.1/nouri.rdmanifest''
       then (0, write_file ''m/cg/3.1/nouri.rdmanifest'' ''depends: [boost]''
                  (makedirs ''m/cg/3.1'' f))
       else if arg = ''deps/tools/cg/3.1/cg.tar.gz''
       then (0, write_file ''tools/cg/3.1/cg.tar.gz'' ''primary bytes''
                  (makedirs ''tools/cg/3.1'' f))
       else if arg = ''deps/mirror/cg/3.1/cg.tar.gz''
       then (0, write_file ''mirror/cg/3.1/cg.tar.gz'' ''mirror bytes''
                  (makedirs ''mirror/cg/3.1'' f))
       else (1, f)),
     md5_hexdigest = (\<lambda>c.
       if c = ''primary bytes'' then ''16671968aeab92b3db840f3277e00bdd''
       else if c = ''mirror bytes'' then ''3416a8fc7d3487b883fbaba2492e8cb6''
       else ''d41d8cd98f00b204e9800998ecf8427e''),
     safe_load = (\<lambda>t.
       if t = ''uri: cg'' then Inr (Mapping sample_manifest)
       else if t = ''depends: [boost]'' then Inr (Mapping sample_nouri_manifest)
       else Inl ''mapping values are not allowed here''),
     tarfile_extractall = (\<lambda>filename d f.
       case read_file f filename of
         None \<Rightarrow> (Some ''file could not be opened successfully'', f)
       | Some c \<Rightarrow> (None, write_file (d @ ''/payload'') c f)),
     create_tempfile_from_string_and_execute = (\<lambda>script d f.
       case read_file f (dirname d @ ''/payload'') of
         None \<Rightarrow> (False, f)
       | Some c \<Rightarrow> if script = ''make install''
                   then (True, write_file ''/usr/lib/libCg.so'' c f)
                   else (False, f))\<rparr>"

definition sample_jfrog_state :: jfrog_state where
  "sample_jfrog_state = \<lparr>
     rdmanifest_cache = Map.empty,
     jfs = \<lparr>dirs = [], files = []\<rparr>,
     downloads = [],
     heap = (\<lambda>p. [])(0 := [''cmake'']),
     next_addr = 1\<rparr>"

definition sample_args :: rosdep_args where
  "sample_args = \<lparr>a_uri = Some sample_manifest_url, a_alternate_uri = None, a_md5sum = None,
     a_depends = Some 0\<rparr>"

definition sample_nouri_args :: rosdep_args where
  "sample_nouri_args = \<lparr>a_uri = Some sample_nouri_url, a_alternate_uri = None,
     a_md5sum = None, a_depends = None\<rparr>"

text \<open>A unit whose checksum is the mirror's: the primary tarball fails the check.\<close>

definition sample_resolved :: JFrogInstall where
  "sample_resolved = \<lparr>manifest = sample_manifest, manifest_url = sample_manifest_url,
     install_command = ''make install'',
     check_presence_command = ''test -f /usr/lib/libCg.so'',
     exec_path = ''.'', tarball = sample_tarball, alternate_tarball = Some sample_mirror,
     tarball_md5sum = Some ''3416a8fc7d3487b883fbaba2492e8cb6'',
     dependencies = [''boost'', ''zlib'']\<rparr>"

text \<open>The same unit without a mirror.\<close>

definition sample_resolved_no_mirror :: JFrogInstall where
  "sample_resolved_no_mirror = sample_resolved\<lparr>alternate_tarball := None\<rparr>"

text \<open>The same unit with a checksum that neither tarball has, and with none.\<close>

definition sample_resolved_wrong_sum :: JFrogInstall where
  "sample_resolved_wrong_sum
     = sample_resolved\<lparr>tarball_md5sum := Some ''d41d8cd98f00b204e9800998ecf8427e''\<rparr>"

definition sample_resolved_no_sum :: JFrogInstall where
  "sample_resolved_no_sum = sample_resolved\<lparr>tarball_md5sum := None\<rparr>"




definition sample_state_after :: jfrog_state where
  "sample_state_after = sample_jfrog_state\<lparr>
     rdmanifest_cache := [sample_manifest_url \<mapsto> [sample_resolved]],
     jfs := \<lparr>dirs = [''m/cg/3.1''], files = [(''m/cg/3.1/cg.rdmanifest'', ''uri: cg'')]\<rparr>,
     downloads := [sample_manifest_url]\<rparr>"




section \<open>Properties\<close>

subsection \<open>Auxiliary facts\<close>

lemma split_on_simps [simp]:
  "split_on c [] = [[]]"
  "split_on c (x # xs) =
     (if x = c then [] # split_on c xs
      else (case split_on c xs of [] \<Rightarrow> [[x]] | w # ws \<Rightarrow> (x # w) # ws))"
  by (simp_all add: split_on_def)

lemma matches_iff: "matches m s \<longleftrightarrow> (\<forall>t\<in>set (tags s). t \<noteq> [] \<longrightarrow> t \<in> set m)"
  by (auto simp: matches_def any_str_def)

lemma constructed_url:
  assumes "constructed urlparse x"
  shows "scheme (urlparse (url (source x))) \<noteq> []"
  using assms
  by (auto simp: constructed_def CachedDataSource_init_def DataSource_init_def Let_def
      split: if_splits sum.splits)

lemma all_view_key_not_loadable:
  assumes "\<forall>x\<in>set (sources self). constructed urlparse x"
    and "scheme (urlparse ALL_VIEW_KEY) = []"
  shows "ALL_VIEW_KEY \<notin> set (get_loadable_views self)"
  using assms constructed_url by (fastforce simp: get_loadable_views_def)

lemma filter_view_name_empty:
  "filter (\<lambda>x. v = url (source x)) xs = [] \<longleftrightarrow> v \<notin> set (map (\<lambda>x. url (source x)) xs)"
  by (auto simp: filter_empty_conv)

lemma filter_url_empty:
  "filter (\<lambda>x. url (source x) = v) xs = [] \<longleftrightarrow> v \<notin> set (map (\<lambda>x. url (source x)) xs)"
  by (auto simp: filter_empty_conv)

lemma sample_loader_constructed:
  "\<forall>x\<in>set (sources sample_loader). constructed urlparse_sample x"
  by (simp add: sample_loader_def constructed_def CachedDataSource_init_def DataSource_init_def
      VALID_TYPES_def TYPE_YAML_def TYPE_GBPDISTRO_def urlparse_sample_def)

lemma sample_key_scheme: "scheme (urlparse_sample ALL_VIEW_KEY) = []"
  by (simp add: ALL_VIEW_KEY_def urlparse_sample_def)

subsection \<open>The tag matcher\<close>

text \<open>
  Claim C5. \<open>DataSourceMatcher.matches(source)\<close> is meant to be true exactly when every
  tag of the source is in the matcher's tag set, as the comment in the method says. The
  method tests the set difference with \<open>any\<close>, which looks at the truth value of the
  elements, so a tag that is the empty string is never seen as missing. The line
  \<open>yaml http://example.org/a.yaml  ubuntu\<close> (two spaces before \<open>ubuntu\<close>) parses to a
  source with the tags \<open>''\<close> and \<open>ubuntu\<close>; against the matcher tags \<open>[ubuntu]\<close> the
  method answers true although the tag \<open>''\<close> is not among them.
\<close>

theorem matches_empty_tag_absent:
  "matches [''ubuntu'']
     \<lparr>type = ''yaml'', url = ''http://example.org/a.yaml'', tags = ['''', ''ubuntu''],
        origin = Some ''20-default.list''\<rparr>
   \<and> '''' \<in> set (tags \<lparr>type = ''yaml'', url = ''http://example.org/a.yaml'',
                         tags = ['''', ''ubuntu''], origin = Some ''20-default.list''\<rparr>)
   \<and> '''' \<notin> set [''ubuntu'']
   \<and> parse_sources_data ''yaml http://example.org/a.yaml  ubuntu'' ''20-default.list''
        (DataSource_init urlparse_sample)
      = Inr [\<lparr>type = ''yaml'', url = ''http://example.org/a.yaml'', tags = ['''', ''ubuntu''],
                origin = Some ''20-default.list''\<rparr>]"
  by (simp add: matches_iff parse_sources_data_def strip_def is_space_def startswith_def
      DataSource_init_def VALID_TYPES_def TYPE_YAML_def TYPE_GBPDISTRO_def urlparse_sample_def)

subsection \<open>View dependencies\<close>

text \<open>
  Claim C6. For a loader whose sources are constructed objects,
  \<open>get_view_dependencies(view_name)\<close> is the empty list when \<open>view_name\<close> is the URL of
  one of the loader's sources, and the list of the URLs of all its sources for every other
  name; the aggregate key \<open>sources.list\<close> is such a name. The aggregate key is no source's
  URL because the constructor rejects a URL without a scheme, which is what the library's
  parser reports for \<open>sources.list\<close> (the second hypothesis).
\<close>

theorem get_view_dependencies_leaf_or_all:
  assumes "\<forall>x\<in>set (sources self). constructed urlparse x"
    and "scheme (urlparse ALL_VIEW_KEY) = []"
  shows "(view_name \<in> set (get_loadable_views self)
            \<longrightarrow> get_view_dependencies self view_name = [])
       \<and> (view_name \<notin> set (get_loadable_views self)
            \<longrightarrow> get_view_dependencies self view_name = get_loadable_views self)
       \<and> get_view_dependencies self ALL_VIEW_KEY = get_loadable_views self"
proof -
  have key: "ALL_VIEW_KEY \<notin> set (get_loadable_views self)"
    using assms by (rule all_view_key_not_loadable)
  show ?thesis
    using key
    by (auto simp: get_view_dependencies_def get_loadable_views_def filter_view_name_empty)
qed

theorem get_view_dependencies_leaf_or_all_witness:
  "list_all (constructed urlparse_sample) (sources sample_loader)
   \<and> scheme (urlparse_sample ALL_VIEW_KEY) = []
   \<and> ''http://example.org/b.yaml'' \<in> set (get_loadable_views sample_loader)
   \<and> get_view_dependencies sample_loader ''http://example.org/b.yaml'' = []
   \<and> ''http://example.org/c.yaml'' \<notin> set (get_loadable_views sample_loader)
   \<and> get_view_dependencies sample_loader ''http://example.org/c.yaml''
       = [''http://example.org/a.yaml'', ''http://example.org/b.yaml'']
   \<and> get_view_dependencies sample_loader ALL_VIEW_KEY
       = [''http://example.org/a.yaml'', ''http://example.org/b.yaml'']"
proof -
  have lv: "get_loadable_views sample_loader
      = [''http://example.org/a.yaml'', ''http://example.org/b.yaml'']"
    by (simp add: get_loadable_views_def sample_loader_def)
  show ?thesis
    using get_view_dependencies_leaf_or_all [OF sample_loader_constructed sample_key_scheme,
        of "''http://example.org/b.yaml''"]
      get_view_dependencies_leaf_or_all [OF sample_loader_constructed sample_key_scheme,
        of "''http://example.org/c.yaml''"]
      sample_loader_constructed sample_key_scheme
    by (simp add: lv list_all_iff)
qed

subsection \<open>Loading the aggregate view\<close>

text \<open>
  Claim C10. For a loader whose sources are constructed objects and a database that has
  not loaded the aggregate view \<open>sources.list\<close>, \<open>load_view\<close> with that key raises
  \<open>ResourceNotFound\<close>: \<open>get_source\<close> finds a source only by its URL, and no constructed
  source has the aggregate key as its URL.
\<close>

theorem load_view_all_view_key_not_found:
  assumes "\<forall>x\<in>set (sources self). constructed urlparse x"
    and "scheme (urlparse ALL_VIEW_KEY) = []"
    and "\<not> is_loaded rosdep_db ALL_VIEW_KEY"
  shows "load_view is_loaded set_view_data self ALL_VIEW_KEY rosdep_db
           = Inl (ResourceNotFound ALL_VIEW_KEY)"
proof -
  have "ALL_VIEW_KEY \<notin> set (get_loadable_views self)"
    using assms(1,2) by (rule all_view_key_not_loadable)
  then have "filter (\<lambda>x. url (source x) = ALL_VIEW_KEY) (sources self) = []"
    by (simp add: filter_url_empty get_loadable_views_def)
  then have "get_source self ALL_VIEW_KEY = Inl (ResourceNotFound ALL_VIEW_KEY)"
    by (simp add: get_source_def)
  with assms(3) show ?thesis
    by (simp add: load_view_def)
qed

theorem load_view_all_view_key_not_found_witness:
  "list_all (constructed urlparse_sample) (sources sample_loader)
   \<and> scheme (urlparse_sample ALL_VIEW_KEY) = []
   \<and> \<not> db_is_loaded [] ALL_VIEW_KEY
   \<and> load_view db_is_loaded db_set_view_data sample_loader ALL_VIEW_KEY []
       = Inl (ResourceNotFound ALL_VIEW_KEY)"
proof -
  have nl: "\<not> db_is_loaded [] ALL_VIEW_KEY"
    by (simp add: db_is_loaded_def)
  show ?thesis
    using load_view_all_view_key_not_found [where urlparse = urlparse_sample
        and self = sample_loader and is_loaded = db_is_loaded and rosdep_db = "[]"
        and set_view_data = db_set_view_data]
      sample_loader_constructed sample_key_scheme nl
    by (simp add: list_all_iff)
qed

subsection \<open>Parsing a sources list\<close>

lemma parse_lines_append:
  "parse_lines model orig acc (pre @ rest) =
     (case parse_lines model orig acc pre of
        Inl e \<Rightarrow> Inl e
      | Inr ss \<Rightarrow> parse_lines model orig ss rest)"
proof (induction pre arbitrary: acc)
  case Nil
  show ?case by simp
next
  case (Cons l ls)
  show ?case
    by (simp add: Let_def Cons.IH split: sum.splits error.splits)
qed

lemma parse_lines_short:
  assumes "strip l \<noteq> []" and "\<not> startswith (strip l) ''#''"
    and "length (split_on CHR '' '' (strip l)) < 2"
  shows "parse_lines model orig acc (l # post)
           = Inl (InvalidData (''invalid line:'' @ [CHR 0x0A] @ strip l) (Some orig))"
  using assms by (simp add: Let_def)

lemma parse_lines_error_kind:
  assumes "\<forall>ty u tg e. model ty u tg (Some orig) = Inl e \<longrightarrow> is_ValueError e"
    and "parse_lines model orig acc ls = Inl err"
  shows "\<exists>m. err = InvalidData m (Some orig)"
  using assms(2)
proof (induction ls arbitrary: acc)
  case Nil
  then show ?case by simp
next
  case (Cons l ls)
  show ?case
  proof (cases "strip l = [] \<or> startswith (strip l) ''#''")
    case True
    with Cons show ?thesis by (simp add: Let_def)
  next
    case skip: False
    show ?thesis
    proof (cases "length (split_on CHR '' '' (strip l)) < 2")
      case True
      with skip Cons.prems show ?thesis by (auto simp: Let_def)
    next
      case False
      let ?r = "model (split_on CHR '' '' (strip l) ! 0) (split_on CHR '' '' (strip l) ! 1)
                  (drop 2 (split_on CHR '' '' (strip l))) (Some orig)"
      show ?thesis
      proof (cases ?r)
        case (Inl e)
        with assms(1) have "is_ValueError e" by blast
        then obtain m where "e = ValueError m" by (cases e) auto
        with Inl skip False Cons.prems show ?thesis by (auto simp: Let_def)
      next
        case (Inr s)
        with skip False Cons.prems have "parse_lines model orig (acc @ [s]) ls = Inl err"
          by (simp add: Let_def)
        then show ?thesis by (rule Cons.IH)
      qed
    qed
  qed
qed

lemma DataSource_init_raises_ValueError:
  "DataSource_init urlparse ty u tg orig = Inl e \<Longrightarrow> is_ValueError e"
  by (auto simp: DataSource_init_def Let_def split: if_splits)

lemma parse_lines_accepts:
  assumes "\<forall>l\<in>set ls. strip l \<noteq> [] \<longrightarrow> \<not> startswith (strip l) ''#'' \<longrightarrow>
             2 \<le> length (split_on CHR '' '' (strip l))
             \<and> (\<exists>s. model (split_on CHR '' '' (strip l) ! 0) (split_on CHR '' '' (strip l) ! 1)
                        (drop 2 (split_on CHR '' '' (strip l))) (Some orig) = Inr s)"
  shows "\<exists>ss. parse_lines model orig acc ls = Inr ss"
  using assms
proof (induction ls arbitrary: acc)
  case Nil
  show ?case by simp
next
  case (Cons l ls)
  from Cons.prems have rest: "\<And>acc. \<exists>ss. parse_lines model orig acc ls = Inr ss"
    by (intro Cons.IH) simp
  show ?case
  proof (cases "strip l = [] \<or> startswith (strip l) ''#''")
    case True
    with rest [of acc] show ?thesis by (simp add: Let_def)
  next
    case False
    with Cons.prems obtain s where len: "\<not> length (split_on CHR '' '' (strip l)) < 2"
      and s: "model (split_on CHR '' '' (strip l) ! 0) (split_on CHR '' '' (strip l) ! 1)
                (drop 2 (split_on CHR '' '' (strip l))) (Some orig) = Inr s"
      by fastforce
    from False len s rest [of "acc @ [s]"] show ?thesis by (simp add: Let_def)
  qed
qed

lemma parse_lines_reads:
  assumes "parse_lines model orig acc ls = Inr ss"
  shows "\<exists>new. ss = acc @ new
       \<and> list_all2 (\<lambda>l s. 2 \<le> length (split_on CHR '' '' (strip l))
              \<and> model (split_on CHR '' '' (strip l) ! 0) (split_on CHR '' '' (strip l) ! 1)
                    (drop 2 (split_on CHR '' '' (strip l))) (Some orig) = Inr s)
            (filter (\<lambda>l. strip l \<noteq> [] \<and> \<not> startswith (strip l) ''#'') ls) new"
  using assms
proof (induction ls arbitrary: acc)
  case Nil
  then show ?case by simp
next
  case (Cons l ls)
  show ?case
  proof (cases "strip l = [] \<or> startswith (strip l) ''#''")
    case True
    with Cons.prems have "parse_lines model orig acc ls = Inr ss"
      by (simp add: Let_def)
    from Cons.IH [OF this] True show ?thesis by auto
  next
    case False
    let ?sp = "split_on CHR '' '' (strip l)"
    from False Cons.prems have len: "\<not> length ?sp < 2"
      by (auto simp: Let_def split: if_splits)
    from False len Cons.prems obtain s where
      s: "model (?sp ! 0) (?sp ! 1) (drop 2 ?sp) (Some orig) = Inr s"
      and rest: "parse_lines model orig (acc @ [s]) ls = Inr ss"
      by (auto simp: Let_def split: sum.splits error.splits)
    from Cons.IH [OF rest] obtain new where new: "ss = (acc @ [s]) @ new"
      and rel: "list_all2 (\<lambda>l s. 2 \<le> length (split_on CHR '' '' (strip l))
              \<and> model (split_on CHR '' '' (strip l) ! 0) (split_on CHR '' '' (strip l) ! 1)
                    (drop 2 (split_on CHR '' '' (strip l))) (Some orig) = Inr s)
            (filter (\<lambda>l. strip l \<noteq> [] \<and> \<not> startswith (strip l) ''#'') ls) new"
      by blast
    from new have "ss = acc @ (s # new)" by simp
    moreover from False len s rel
    have "list_all2 (\<lambda>l s. 2 \<le> length (split_on CHR '' '' (strip l))
              \<and> model (split_on CHR '' '' (strip l) ! 0) (split_on CHR '' '' (strip l) ! 1)
                    (drop 2 (split_on CHR '' '' (strip l))) (Some orig) = Inr s)
            (filter (\<lambda>l. strip l \<noteq> [] \<and> \<not> startswith (strip l) ''#'') (l # ls)) (s # new)"
      by simp
    ultimately show ?thesis by blast
  qed
qed

lemma DataSource_init_fields:
  assumes "DataSource_init urlparse ty u tg orig = Inr s"
  shows "s = \<lparr>type = ty, url = u, tags = tg, origin = orig\<rparr>"
  using assms by (auto simp: DataSource_init_def Let_def split: if_splits)

lemma list_all2_left:
  assumes "list_all2 R xs ys" and "\<And>x y. R x y \<Longrightarrow> P x"
  shows "\<forall>x\<in>set xs. P x"
  using assms(1)
proof (induction rule: list_all2_induct)
  case Nil
  show ?case by simp
next
  case (Cons x xs y ys)
  with assms(2) show ?case by auto
qed

lemma list_all2_function:
  assumes "list_all2 R xs ys" and "\<And>x y. R x y \<Longrightarrow> y = f x"
  shows "ys = map f xs"
  using assms(1)
proof (induction rule: list_all2_induct)
  case Nil
  show ?case by simp
next
  case (Cons x xs y ys)
  with assms(2) show ?case by simp
qed

text \<open>
  Claim C7, as stated, fails: the line \<open>yaml<TAB>http://example.org/a.yaml\<close> has the two
  whitespace-delimited tokens \<open>yaml\<close> and \<open>http://example.org/a.yaml\<close>, yet
  \<open>parse_sources_data\<close> rejects it as an invalid line, because it cuts the line at single
  space characters only.
\<close>

theorem parse_sources_data_tab_counterexample:
  "whitespace_tokens (''yaml'' @ [CHR 0x09] @ ''http://example.org/a.yaml'')
     = [''yaml'', ''http://example.org/a.yaml'']
   \<and> parse_sources_data (''yaml'' @ [CHR 0x09] @ ''http://example.org/a.yaml'')
        ''20-default.list'' (DataSource_init urlparse_sample)
     = Inl (InvalidData
         (''invalid line:'' @ [CHR 0x0A] @ ''yaml'' @ [CHR 0x09] @ ''http://example.org/a.yaml'')
         (Some ''20-default.list''))"
  by (simp add: whitespace_tokens_def is_space_def parse_sources_data_def strip_def
      startswith_def)

text \<open>
  Claim C7, amended. \<open>parse_sources_data\<close> strips each line of surrounding whitespace,
  skips it when it is then empty or starts with \<open>#\<close>, and otherwise cuts it at every
  single space character into \<open><type> <url> [tag...]\<close>.

  A line that gives fewer than two such tokens makes parsing fail: with the error of an
  earlier line if one failed before it, and otherwise (in particular when every earlier
  line is accepted) with \<open>InvalidData\<close> whose message is \<open>invalid line:\<close> followed by
  the stripped line and whose origin is the origin file. When the model raises nothing
  but \<open>ValueError\<close>, as \<open>DataSource\<close> does, the failure is in both cases an
  \<open>InvalidData\<close> with the origin file.

  When parsing succeeds, the result has one source for each line that was not skipped, in
  the order of the lines: its type is the first token, its URL the second, its tags all
  the tokens after the second, and its origin the origin file. Parsing succeeds when
  every line that is not skipped has two tokens or more and the constructor accepts
  them.
\<close>

theorem parse_sources_data_space_delimited:
  "(\<forall>pre l post.
       split_on (CHR 0x0A) data = pre @ l # post \<longrightarrow>
       strip l \<noteq> [] \<longrightarrow> \<not> startswith (strip l) ''#'' \<longrightarrow>
       length (split_on CHR '' '' (strip l)) < 2 \<longrightarrow>
         parse_sources_data data orig model =
           (case parse_lines model orig [] pre of
              Inl e \<Rightarrow> Inl e
            | Inr ss \<Rightarrow>
                Inl (InvalidData (''invalid line:'' @ [CHR 0x0A] @ strip l) (Some orig)))
         \<and> ((\<forall>p\<in>set pre. strip p \<noteq> [] \<longrightarrow> \<not> startswith (strip p) ''#'' \<longrightarrow>
                2 \<le> length (split_on CHR '' '' (strip p))
                \<and> (\<exists>s. model (split_on CHR '' '' (strip p) ! 0) (split_on CHR '' '' (strip p) ! 1)
                           (drop 2 (split_on CHR '' '' (strip p))) (Some orig) = Inr s))
              \<longrightarrow> parse_sources_data data orig model
                    = Inl (InvalidData (''invalid line:'' @ [CHR 0x0A] @ strip l) (Some orig)))
         \<and> ((\<forall>ty u tg e. model ty u tg (Some orig) = Inl e \<longrightarrow> is_ValueError e)
              \<longrightarrow> (\<exists>m. parse_sources_data data orig model = Inl (InvalidData m (Some orig)))))
   \<and> (\<forall>ss. parse_sources_data data orig (DataSource_init urlparse) = Inr ss \<longrightarrow>
          ss = map (\<lambda>l. \<lparr>type = split_on CHR '' '' (strip l) ! 0,
                           url = split_on CHR '' '' (strip l) ! 1,
                           tags = drop 2 (split_on CHR '' '' (strip l)),
                           origin = Some orig\<rparr>)
                 (filter (\<lambda>l. strip l \<noteq> [] \<and> \<not> startswith (strip l) ''#'')
                    (split_on (CHR 0x0A) data))
          \<and> (\<forall>l\<in>set (split_on (CHR 0x0A) data).
                 strip l \<noteq> [] \<longrightarrow> \<not> startswith (strip l) ''#'' \<longrightarrow>
                 2 \<le> length (split_on CHR '' '' (strip l))))
   \<and> ((\<forall>l\<in>set (split_on (CHR 0x0A) data).
          strip l \<noteq> [] \<longrightarrow> \<not> startswith (strip l) ''#'' \<longrightarrow>
          2 \<le> length (split_on CHR '' '' (strip l))
          \<and> (\<exists>s. DataSource_init urlparse (split_on CHR '' '' (strip l) ! 0)
                     (split_on CHR '' '' (strip l) ! 1)
                     (drop 2 (split_on CHR '' '' (strip l))) (Some orig) = Inr s))
        \<longrightarrow> (\<exists>ss. parse_sources_data data orig (DataSource_init urlparse) = Inr ss))"
proof -
  have short: "parse_sources_data data orig model =
           (case parse_lines model orig [] pre of
              Inl e \<Rightarrow> Inl e
            | Inr ss \<Rightarrow>
                Inl (InvalidData (''invalid line:'' @ [CHR 0x0A] @ strip l) (Some orig)))
         \<and> ((\<forall>p\<in>set pre. strip p \<noteq> [] \<longrightarrow> \<not> startswith (strip p) ''#'' \<longrightarrow>
                2 \<le> length (split_on CHR '' '' (strip p))
                \<and> (\<exists>s. model (split_on CHR '' '' (strip p) ! 0) (split_on CHR '' '' (strip p) ! 1)
                           (drop 2 (split_on CHR '' '' (strip p))) (Some orig) = Inr s))
              \<longrightarrow> parse_sources_data data orig model
                    = Inl (InvalidData (''invalid line:'' @ [CHR 0x0A] @ strip l) (Some orig)))
         \<and> ((\<forall>ty u tg e. model ty u tg (Some orig) = Inl e \<longrightarrow> is_ValueError e)
              \<longrightarrow> (\<exists>m. parse_sources_data data orig model = Inl (InvalidData m (Some orig))))"
    if sp: "split_on (CHR 0x0A) data = pre @ l # post"
      and l: "strip l \<noteq> []" "\<not> startswith (strip l) ''#''"
        "length (split_on CHR '' '' (strip l)) < 2"
    for pre l post
  proof -
    have line: "\<And>acc. parse_lines model orig acc (l # post)
        = Inl (InvalidData (''invalid line:'' @ [CHR 0x0A] @ strip l) (Some orig))"
      using l by (rule parse_lines_short)
    have eq: "parse_sources_data data orig model =
             (case parse_lines model orig [] pre of
                Inl e \<Rightarrow> Inl e
              | Inr ss \<Rightarrow>
                  Inl (InvalidData (''invalid line:'' @ [CHR 0x0A] @ strip l) (Some orig)))"
      unfolding parse_sources_data_def sp parse_lines_append
      by (simp only: line)
    then obtain err where err: "parse_sources_data data orig model = Inl err"
      by (cases "parse_lines model orig [] pre") auto
    have first: "parse_sources_data data orig model
          = Inl (InvalidData (''invalid line:'' @ [CHR 0x0A] @ strip l) (Some orig))"
      if "\<forall>p\<in>set pre. strip p \<noteq> [] \<longrightarrow> \<not> startswith (strip p) ''#'' \<longrightarrow>
                2 \<le> length (split_on CHR '' '' (strip p))
                \<and> (\<exists>s. model (split_on CHR '' '' (strip p) ! 0) (split_on CHR '' '' (strip p) ! 1)
                           (drop 2 (split_on CHR '' '' (strip p))) (Some orig) = Inr s)"
    proof -
      from that obtain ss where "parse_lines model orig [] pre = Inr ss"
        using parse_lines_accepts [of pre model orig "[]"] by blast
      with eq show ?thesis by simp
    qed
    have kind: "\<exists>m. parse_sources_data data orig model = Inl (InvalidData m (Some orig))"
      if "\<forall>ty u tg e. model ty u tg (Some orig) = Inl e \<longrightarrow> is_ValueError e"
      using that err parse_lines_error_kind [of model orig "[]" "split_on (CHR 0x0A) data" err]
      by (simp add: parse_sources_data_def)
    from eq first kind show ?thesis by blast
  qed
  have reads: "ss = map (\<lambda>l. \<lparr>type = split_on CHR '' '' (strip l) ! 0,
                           url = split_on CHR '' '' (strip l) ! 1,
                           tags = drop 2 (split_on CHR '' '' (strip l)),
                           origin = Some orig\<rparr>)
                 (filter (\<lambda>l. strip l \<noteq> [] \<and> \<not> startswith (strip l) ''#'')
                    (split_on (CHR 0x0A) data))
          \<and> (\<forall>l\<in>set (split_on (CHR 0x0A) data).
                 strip l \<noteq> [] \<longrightarrow> \<not> startswith (strip l) ''#'' \<longrightarrow>
                 2 \<le> length (split_on CHR '' '' (strip l)))"
    if ok: "parse_sources_data data orig (DataSource_init urlparse) = Inr ss" for ss
  proof -
    let ?kept = "filter (\<lambda>l. strip l \<noteq> [] \<and> \<not> startswith (strip l) ''#'')
                    (split_on (CHR 0x0A) data)"
    let ?R = "\<lambda>l s. 2 \<le> length (split_on CHR '' '' (strip l))
              \<and> DataSource_init urlparse (split_on CHR '' '' (strip l) ! 0)
                    (split_on CHR '' '' (strip l) ! 1)
                    (drop 2 (split_on CHR '' '' (strip l))) (Some orig) = Inr s"
    from ok have "parse_lines (DataSource_init urlparse) orig [] (split_on (CHR 0x0A) data)
        = Inr ss"
      by (simp add: parse_sources_data_def)
    from parse_lines_reads [OF this] have rel: "list_all2 ?R ?kept ss" by simp
    then have "ss = map (\<lambda>l. \<lparr>type = split_on CHR '' '' (strip l) ! 0,
                           url = split_on CHR '' '' (strip l) ! 1,
                           tags = drop 2 (split_on CHR '' '' (strip l)),
                           origin = Some orig\<rparr>) ?kept"
      by (rule list_all2_function) (auto dest: DataSource_init_fields)
    moreover from rel have "\<forall>l\<in>set ?kept. 2 \<le> length (split_on CHR '' '' (strip l))"
      by (rule list_all2_left) simp
    ultimately show ?thesis by auto
  qed
  have accepts: "\<exists>ss. parse_sources_data data orig (DataSource_init urlparse) = Inr ss"
    if "\<forall>l\<in>set (split_on (CHR 0x0A) data).
          strip l \<noteq> [] \<longrightarrow> \<not> startswith (strip l) ''#'' \<longrightarrow>
          2 \<le> length (split_on CHR '' '' (strip l))
          \<and> (\<exists>s. DataSource_init urlparse (split_on CHR '' '' (strip l) ! 0)
                     (split_on CHR '' '' (strip l) ! 1)
                     (drop 2 (split_on CHR '' '' (strip l))) (Some orig) = Inr s)"
    using that unfolding parse_sources_data_def by (rule parse_lines_accepts)
  from short reads accepts show ?thesis by blast
qed

theorem parse_sources_data_space_delimited_witness:
  "parse_sources_data sample_list ''20-default.list'' (DataSource_init urlparse_sample)
     = Inl (InvalidData (''invalid line:'' @ [CHR 0x0A] @ ''gbpdistro'')
         (Some ''20-default.list''))
   \<and> parse_sources_data sample_good_list ''20-default.list'' (DataSource_init urlparse_sample)
     = Inr [\<lparr>type = ''yaml'', url = ''http://example.org/a.yaml'', tags = [],
              origin = Some ''20-default.list''\<rparr>,
            \<lparr>type = ''gbpdistro'', url = ''http://example.org/b.yaml'',
              tags = [''ubuntu'', ''trusty''], origin = Some ''20-default.list''\<rparr>]"
proof -
  note c7 = parse_sources_data_space_delimited
  have a: "split_on (CHR 0x0A) sample_list
     = [''# rosdep sources'', ''yaml http://example.org/a.yaml''] @ ''gbpdistro''
         # [''yaml http://example.org/b.yaml ubuntu'']"
    by (simp add: sample_list_def)
  have s: "strip ''gbpdistro'' = ''gbpdistro''"
    by (simp add: strip_def is_space_def)
  have b: "strip ''gbpdistro'' \<noteq> []" and c: "\<not> startswith (strip ''gbpdistro'') ''#''"
    and d: "length (split_on CHR '' '' (strip ''gbpdistro'')) < 2"
    by (simp_all add: s startswith_def)
  have pre: "\<forall>p\<in>set [''# rosdep sources'', ''yaml http://example.org/a.yaml''].
      strip p \<noteq> [] \<longrightarrow> \<not> startswith (strip p) ''#'' \<longrightarrow>
        2 \<le> length (split_on CHR '' '' (strip p))
        \<and> (\<exists>s. DataSource_init urlparse_sample (split_on CHR '' '' (strip p) ! 0)
                   (split_on CHR '' '' (strip p) ! 1)
                   (drop 2 (split_on CHR '' '' (strip p))) (Some ''20-default.list'') = Inr s)"
    by (simp add: strip_def is_space_def startswith_def DataSource_init_def VALID_TYPES_def
        TYPE_YAML_def TYPE_GBPDISTRO_def urlparse_sample_def)
  have bad: "parse_sources_data sample_list ''20-default.list''
        (DataSource_init urlparse_sample)
     = Inl (InvalidData (''invalid line:'' @ [CHR 0x0A] @ ''gbpdistro'')
         (Some ''20-default.list''))"
    using c7 [where data = sample_list and orig = "''20-default.list''"
        and model = "DataSource_init urlparse_sample", THEN conjunct1, rule_format,
        OF a b c d, THEN conjunct2, THEN conjunct1, THEN mp, OF pre]
    by (simp only: s)
  have lines: "split_on (CHR 0x0A) sample_good_list
     = [''# rosdep sources'', ''yaml http://example.org/a.yaml'', [],
        ''  gbpdistro http://example.org/b.yaml ubuntu trusty'', []]"
    by (simp add: sample_good_list_def)
  have good: "\<forall>l\<in>set (split_on (CHR 0x0A) sample_good_list).
      strip l \<noteq> [] \<longrightarrow> \<not> startswith (strip l) ''#'' \<longrightarrow>
        2 \<le> length (split_on CHR '' '' (strip l))
        \<and> (\<exists>s. DataSource_init urlparse_sample (split_on CHR '' '' (strip l) ! 0)
                   (split_on CHR '' '' (strip l) ! 1)
                   (drop 2 (split_on CHR '' '' (strip l))) (Some ''20-default.list'') = Inr s)"
    unfolding lines
    by (simp add: strip_def is_space_def startswith_def DataSource_init_def VALID_TYPES_def
        TYPE_YAML_def TYPE_GBPDISTRO_def urlparse_sample_def)
  from c7 [where data = sample_good_list and orig = "''20-default.list''"
      and urlparse = urlparse_sample, THEN conjunct2, THEN conjunct2, THEN mp, OF good]
  obtain ss where ss: "parse_sources_data sample_good_list ''20-default.list''
      (DataSource_init urlparse_sample) = Inr ss"
    by blast
  from c7 [where data = sample_good_list and orig = "''20-default.list''"
      and urlparse = urlparse_sample, THEN conjunct2, THEN conjunct1, rule_format, OF ss,
      THEN conjunct1]
  have "ss = [\<lparr>type = ''yaml'', url = ''http://example.org/a.yaml'', tags = [],
              origin = Some ''20-default.list''\<rparr>,
            \<lparr>type = ''gbpdistro'', url = ''http://example.org/b.yaml'',
              tags = [''ubuntu'', ''trusty''], origin = Some ''20-default.list''\<rparr>]"
    unfolding lines by (simp add: strip_def is_space_def startswith_def)
  with ss bad show ?thesis by simp
qed

subsection \<open>Updating the cache\<close>

lemma sample_parse:
  "parse_sources_list urlparse_sample sample_fs ''/etc/sources.list.d'' = Inr [sample_a, sample_b]"
  by (simp add: parse_sources_list_def sample_fs_def path_exists_def listdir_def path_join_def
      startswith_def endswith_def parse_sources_file_def read_file_def parse_sources_data_def
      strip_def is_space_def DataSource_init_def VALID_TYPES_def TYPE_YAML_def
      TYPE_GBPDISTRO_def urlparse_sample_def sample_a_def sample_b_def)


lemma DataSource_init_type:
  "DataSource_init urlparse ty u tg orig = Inr s \<Longrightarrow> type s \<in> set VALID_TYPES"
  by (auto simp: DataSource_init_def Let_def split: if_splits)

lemma parse_lines_types:
  assumes "parse_lines (DataSource_init urlparse) orig acc ls = Inr ss"
    and "\<forall>s\<in>set acc. type s \<in> set VALID_TYPES"
  shows "\<forall>s\<in>set ss. type s \<in> set VALID_TYPES"
  using assms
proof (induction ls arbitrary: acc)
  case Nil
  then show ?case by simp
next
  case (Cons l ls)
  show ?case
  proof (cases "strip l = [] \<or> startswith (strip l) ''#''")
    case True
    with Cons.prems have "parse_lines (DataSource_init urlparse) orig acc ls = Inr ss"
      by (simp add: Let_def)
    then show ?thesis using Cons.prems(2) by (rule Cons.IH)
  next
    case False
    let ?sp = "split_on CHR '' '' (strip l)"
    from False Cons.prems(1) have len: "\<not> length ?sp < 2"
      by (auto simp: Let_def split: if_splits)
    from False len Cons.prems(1) obtain s where
      s: "DataSource_init urlparse (?sp ! 0) (?sp ! 1) (drop 2 ?sp) (Some orig) = Inr s"
      and rest: "parse_lines (DataSource_init urlparse) orig (acc @ [s]) ls = Inr ss"
      by (auto simp: Let_def split: sum.splits error.splits)
    from s have "type s \<in> set VALID_TYPES" by (rule DataSource_init_type)
    with Cons.prems(2) have "\<forall>x\<in>set (acc @ [s]). type x \<in> set VALID_TYPES" by simp
    with rest show ?thesis by (rule Cons.IH)
  qed
qed

lemma parse_files_types:
  assumes "parse_files urlparse f d acc ns = Inr ss"
    and "\<forall>s\<in>set acc. type s \<in> set VALID_TYPES"
  shows "\<forall>s\<in>set ss. type s \<in> set VALID_TYPES"
  using assms
proof (induction ns arbitrary: acc)
  case Nil
  then show ?case by simp
next
  case (Cons n ns)
  from Cons.prems(1) obtain xs where
    xs: "parse_sources_file urlparse f (path_join d n) = Inr xs"
    and rest: "parse_files urlparse f d (acc @ xs) ns = Inr ss"
    by (auto split: sum.splits)
  from xs have "\<forall>s\<in>set xs. type s \<in> set VALID_TYPES"
    using parse_lines_types [of urlparse "path_join d n" "[]" _ xs]
    by (auto simp: parse_sources_file_def parse_sources_data_def split: option.splits)
  with Cons.prems(2) have "\<forall>s\<in>set (acc @ xs). type s \<in> set VALID_TYPES" by auto
  with rest show ?case by (rule Cons.IH)
qed

lemma parse_sources_list_types:
  assumes "parse_sources_list urlparse f d = Inr srcs"
  shows "\<forall>s\<in>set srcs. type s \<in> set VALID_TYPES"
proof (cases "path_exists f d")
  case False
  with assms show ?thesis by (simp add: parse_sources_list_def)
next
  case True
  with assms have "parse_files urlparse f d []
      (sort (filter (\<lambda>n. endswith n ''.list'') (listdir f d))) = Inr srcs"
    by (simp add: parse_sources_list_def Let_def)
  then show ?thesis by (rule parse_files_types) simp
qed

lemma download_rosdep_data_URLError:
  assumes "urlopen_read env u = Inl (URLError m)"
  shows "download_rosdep_data env u = Inl (DownloadFailure m)"
  using assms by (simp add: download_rosdep_data_def read_rosdep_data_def)

lemma download_rosdep_data_YAMLError:
  assumes "urlopen_read env u = Inr text" and "yaml_safe_load env text = Inl (YAMLError m)"
  shows "download_rosdep_data env u = Inl (DownloadFailure m)"
  using assms by (simp add: download_rosdep_data_def read_rosdep_data_def)

lemma download_rosdep_data_not_dict:
  assumes "urlopen_read env u = Inr text" and "yaml_safe_load env text = Inr data"
    and "\<not> is_dict data"
  shows "download_rosdep_data env u
           = Inl (DownloadFailure (''rosdep data from ['' @ u @ ''] is not a YAML dictionary''))"
  using assms by (simp add: download_rosdep_data_def read_rosdep_data_def)

lemma download_rosdep_data_dict:
  assumes "urlopen_read env u = Inr text" and "yaml_safe_load env text = Inr data"
    and "is_dict data"
  shows "download_rosdep_data env u = Inr data"
  using assms by (simp add: download_rosdep_data_def read_rosdep_data_def)

lemma download_rosdep_data_uncaught:
  assumes "urlopen_read env u = Inl e" and "e = SocketTimeout m \<or> e = HTTPException m"
  shows "download_rosdep_data env u = Inl e"
  using assms by (auto simp: download_rosdep_data_def read_rosdep_data_def)

lemma write_cache_file_path:
  "fst (write_cache_file env d (url s) data f) = cache_file env d s"
  by (simp add: write_cache_file_def cache_file_def Let_def)

lemma fetch_all_total:
  assumes "\<forall>s\<in>set srcs. type s \<in> set VALID_TYPES"
    and "\<forall>s\<in>set srcs. \<forall>e. fetch env s = Inl e \<longrightarrow> is_DownloadFailure e"
  shows "fetch_all env d sh eh srcs prev retval st =
     (Inr (retval @ map (\<lambda>s. (s, cache_file env d s)) (filter (succeeded env) srcs)),
      st\<lparr>fs := foldl (cache_source env d) (fs st) srcs,
          calls := calls st @ concat (map (report env sh eh) srcs)\<rparr>)"
  using assms
proof (induction srcs arbitrary: prev retval st)
  case Nil
  show ?case by simp
next
  case (Cons s srcs)
  from Cons.prems(1) have ty: "type s = TYPE_YAML \<or> type s = TYPE_GBPDISTRO"
    by (simp add: VALID_TYPES_def)
  then have disp: "(if type s = TYPE_YAML then download_rosdep_data env (url s)
            else if type s = TYPE_GBPDISTRO
            then download_gbpdistro_as_rosdep_data env (url s)
            else (case prev of None \<Rightarrow> Inl UnboundLocalError | Some d \<Rightarrow> Inr d)) = fetch env s"
    by (auto simp: fetch_def)
  have IH: "\<And>prev retval st. fetch_all env d sh eh srcs prev retval st =
     (Inr (retval @ map (\<lambda>s. (s, cache_file env d s)) (filter (succeeded env) srcs)),
      st\<lparr>fs := foldl (cache_source env d) (fs st) srcs,
          calls := calls st @ concat (map (report env sh eh) srcs)\<rparr>)"
    using Cons.prems by (intro Cons.IH) auto
  show ?case
  proof (cases "fetch env s")
    case (Inr data)
    obtain fp f' where w: "write_cache_file env d (url s) data (fs st) = (fp, f')"
      by (cases "write_cache_file env d (url s) data (fs st)")
    have fp: "fp = cache_file env d s"
      using write_cache_file_path [of env d s data "fs st"] w by simp
    have f': "f' = cache_source env d (fs st) s"
      using w Inr by (simp add: cache_source_def)
    have suc: "succeeded env s"
      by (simp add: succeeded_def Inr)
    have rep: "report env sh eh s = (if sh then [Success_call s] else [])"
      by (simp add: report_def Inr)
    show ?thesis
      unfolding fetch_all.simps disp
      by (simp add: Inr w IH fp f' suc rep)
  next
    case (Inl e)
    with Cons.prems(2) have "is_DownloadFailure e" by simp
    then obtain m where m: "e = DownloadFailure m" by (cases e) auto
    have suc: "\<not> succeeded env s"
      by (simp add: succeeded_def Inl)
    have rep: "report env sh eh s = (if eh then [Error_call s m] else [])"
      by (simp add: report_def Inl m)
    have cs: "cache_source env d (fs st) s = fs st"
      by (simp add: cache_source_def Inl)
    show ?thesis
      unfolding fetch_all.simps disp
      by (simp add: Inl m IH suc rep cs)
  qed
qed

lemma fetch_all_returns:
  assumes "\<forall>s\<in>set srcs. type s \<in> set VALID_TYPES"
    and "fetch_all env d sh eh srcs prev retval st = (Inr rv, st')"
  shows "\<forall>s\<in>set srcs. \<forall>e. fetch env s = Inl e \<longrightarrow> is_DownloadFailure e"
  using assms
proof (induction srcs arbitrary: prev retval st)
  case Nil
  show ?case by simp
next
  case (Cons s srcs)
  from Cons.prems(1) have ty: "type s = TYPE_YAML \<or> type s = TYPE_GBPDISTRO"
    by (simp add: VALID_TYPES_def)
  then have disp: "(if type s = TYPE_YAML then download_rosdep_data env (url s)
            else if type s = TYPE_GBPDISTRO
            then download_gbpdistro_as_rosdep_data env (url s)
            else (case prev of None \<Rightarrow> Inl UnboundLocalError | Some d \<Rightarrow> Inr d)) = fetch env s"
    by (auto simp: fetch_def)
  from Cons.prems(1) have tys: "\<forall>s\<in>set srcs. type s \<in> set VALID_TYPES" by simp
  show ?case
  proof (cases "fetch env s")
    case (Inr data)
    obtain fp f' where w: "write_cache_file env d (url s) data (fs st) = (fp, f')"
      by (cases "write_cache_file env d (url s) data (fs st)")
    from Cons.prems(2) have "fetch_all env d sh eh srcs (Some data) (retval @ [(s, fp)])
        (st\<lparr>fs := f', calls := calls st @ (if sh then [Success_call s] else [])\<rparr>) = (Inr rv, st')"
      unfolding fetch_all.simps disp by (simp add: Inr w)
    with tys have "\<forall>s\<in>set srcs. \<forall>e. fetch env s = Inl e \<longrightarrow> is_DownloadFailure e"
      by (rule Cons.IH)
    with Inr show ?thesis by simp
  next
    case (Inl e)
    show ?thesis
    proof (cases "is_DownloadFailure e")
      case True
      then obtain m where m: "e = DownloadFailure m" by (cases e) auto
      from Cons.prems(2) have "fetch_all env d sh eh srcs prev retval
          (st\<lparr>calls := calls st @ (if eh then [Error_call s m] else [])\<rparr>) = (Inr rv, st')"
        unfolding fetch_all.simps disp by (simp add: Inl m)
      with tys have "\<forall>s\<in>set srcs. \<forall>e. fetch env s = Inl e \<longrightarrow> is_DownloadFailure e"
        by (rule Cons.IH)
      with Inl True show ?thesis by simp
    next
      case False
      then have "fetch_all env d sh eh (s # srcs) prev retval st = (Inl e, st)"
        unfolding fetch_all.simps disp by (cases e) (simp_all add: Inl)
      with Cons.prems(2) show ?thesis by simp
    qed
  qed
qed

lemma update_sources_list_eq:
  assumes "parse_sources_list urlparse (fs st) sld = Inr srcs"
    and "\<forall>s\<in>set srcs. \<forall>e. fetch env s = Inl e \<longrightarrow> is_DownloadFailure e"
  shows "update_sources_list env urlparse sld d sh eh st =
     (Inr (map (\<lambda>s. (s, cache_file env d s)) (filter (succeeded env) srcs)),
      \<lparr>fs = write_cache_index d srcs (foldl (cache_source env d) (fs st) srcs),
       calls = calls st @ concat (map (report env sh eh) srcs)\<rparr>)"
proof -
  have ty: "\<forall>s\<in>set srcs. type s \<in> set VALID_TYPES"
    using assms(1) by (rule parse_sources_list_types)
  show ?thesis
    by (simp add: update_sources_list_def assms(1) fetch_all_total [OF ty assms(2)])
qed

lemma update_sources_list_returned:
  assumes "parse_sources_list urlparse (fs st) sld = Inr srcs"
    and "update_sources_list env urlparse sld d sh eh st = (Inr retval, st')"
  shows "\<forall>s\<in>set srcs. \<forall>e. fetch env s = Inl e \<longrightarrow> is_DownloadFailure e"
proof -
  have ty: "\<forall>s\<in>set srcs. type s \<in> set VALID_TYPES"
    using assms(1) by (rule parse_sources_list_types)
  obtain r1 st1 where f: "fetch_all env d sh eh srcs None [] st = (r1, st1)"
    by (cases "fetch_all env d sh eh srcs None [] st")
  with assms have "\<exists>rv. r1 = Inr rv"
    by (cases r1) (simp_all add: update_sources_list_def)
  then obtain rv where "fetch_all env d sh eh srcs None [] st = (Inr rv, st1)"
    using f by blast
  with ty show ?thesis by (rule fetch_all_returns)
qed


lemma read_file_write_file:
  "read_file (write_file p t f) q = (if q = p then Some t else read_file f q)"
  by (simp add: read_file_def write_file_def update_conv')

lemma read_file_makedirs: "read_file (makedirs d f) q = read_file f q"
  by (simp add: read_file_def makedirs_def)

lemma read_file_cache_source:
  "read_file (cache_source env d f s) q =
     (case fetch env s of
        Inr data \<Rightarrow> if q = cache_file env d s then Some (yaml_safe_dump env data)
                     else read_file f q
      | Inl e \<Rightarrow> read_file f q)"
  by (simp add: cache_source_def write_cache_file_def cache_file_def Let_def
      read_file_write_file read_file_makedirs split: sum.splits)

lemma read_file_write_cache_index:
  "read_file (write_cache_index d srcs f) q =
     (if q = path_join d ''index'' then Some (index_header @ concat (map index_line srcs))
      else read_file f q)"
  by (simp add: write_cache_index_def Let_def read_file_write_file read_file_makedirs)

lemma foldl_cache_source_untouched:
  assumes "\<forall>t\<in>set srcs. succeeded env t \<longrightarrow> cache_file env d t \<noteq> q"
  shows "read_file (foldl (cache_source env d) f srcs) q = read_file f q"
  using assms
proof (induction srcs arbitrary: f)
  case Nil
  show ?case by simp
next
  case (Cons t ts)
  have "read_file (cache_source env d f t) q = read_file f q"
    using Cons.prems by (auto simp: read_file_cache_source succeeded_def split: sum.splits)
  with Cons show ?case by simp
qed

lemma foldl_cache_source_exists:
  assumes "read_file f q \<noteq> None"
  shows "read_file (foldl (cache_source env d) f srcs) q \<noteq> None"
  using assms
proof (induction srcs arbitrary: f)
  case Nil
  then show ?case by simp
next
  case (Cons t ts)
  have "read_file (cache_source env d f t) q \<noteq> None"
    using Cons.prems by (auto simp: read_file_cache_source split: sum.splits)
  then show ?case by (simp add: Cons.IH)
qed

lemma foldl_cache_source_written:
  assumes "s \<in> set srcs" and "fetch env s = Inr data"
  shows "read_file (foldl (cache_source env d) f srcs) (cache_file env d s) \<noteq> None"
  using assms(1)
proof (induction srcs arbitrary: f)
  case Nil
  then show ?case by simp
next
  case (Cons t ts)
  show ?case
  proof (cases "s = t")
    case True
    have "read_file (cache_source env d f t) (cache_file env d s) \<noteq> None"
      using True assms(2) by (simp add: read_file_cache_source)
    then show ?thesis by (simp add: foldl_cache_source_exists)
  next
    case False
    with Cons.prems have "s \<in> set ts" by simp
    then show ?thesis by (simp add: Cons.IH)
  qed
qed

lemma foldl_cache_source_content:
  assumes "s \<in> set srcs" and "fetch env s = Inr data"
    and "\<forall>t\<in>set srcs. cache_file env d t = cache_file env d s \<longrightarrow> succeeded env t
           \<longrightarrow> fetch env t = Inr data"
  shows "read_file (foldl (cache_source env d) f srcs) (cache_file env d s)
           = Some (yaml_safe_dump env data)"
  using assms(1,3)
proof (induction srcs arbitrary: f rule: rev_induct)
  case Nil
  then show ?case by simp
next
  case (snoc t ts)
  show ?case
  proof (cases "succeeded env t \<and> cache_file env d t = cache_file env d s")
    case True
    with snoc.prems(2) have "fetch env t = Inr data" by simp
    with True show ?thesis by (simp add: read_file_cache_source)
  next
    case False
    then have "s \<noteq> t" using assms(2) by (auto simp: succeeded_def)
    with snoc.prems(1) have mem: "s \<in> set ts" by simp
    have "read_file (cache_source env d (foldl (cache_source env d) f ts) t)
            (cache_file env d s)
          = read_file (foldl (cache_source env d) f ts) (cache_file env d s)"
      using False by (auto simp: read_file_cache_source succeeded_def split: sum.splits)
    moreover have "read_file (foldl (cache_source env d) f ts) (cache_file env d s)
          = Some (yaml_safe_dump env data)"
      using mem snoc.prems(2) by (intro snoc.IH) auto
    ultimately show ?thesis by simp
  qed
qed

lemma report_error_call:
  assumes "s \<in> set srcs" and "fetch env s = Inl (DownloadFailure m)"
  shows "Error_call s m \<in> set (concat (map (report env sh True) srcs))"
  using assms by (force simp: report_def)

text \<open>
  A source whose fetch fails with \<open>DownloadFailure\<close> does not end the update. When
  every failing fetch of the list fails that way, the update returns normally with one
  pair for every source that was fetched, in the order of the list; the handlers are
  called once per source, in that order, the error handler with the source and the
  failure's message; and the cache file of every fetched source exists afterwards and
  holds the dump of its data (unless another fetched source with the same cache file
  brought other data, or the cache file is the index itself).
\<close>

lemma update_sources_list_isolates_download_failures:
  assumes "parse_sources_list urlparse (fs st) sources_list_dir = Inr srcs"
    and "\<forall>s\<in>set srcs. \<forall>e. fetch env s = Inl e \<longrightarrow> is_DownloadFailure e"
    and "update_sources_list env urlparse sources_list_dir sources_cache_dir success_handler
           error_handler st = (r, st')"
  shows "r = Inr (map (\<lambda>s. (s, cache_file env sources_cache_dir s))
                (filter (succeeded env) srcs))
       \<and> calls st' = calls st @ concat (map (report env success_handler error_handler) srcs)
       \<and> (\<forall>s\<in>set srcs. \<forall>m. fetch env s = Inl (DownloadFailure m) \<longrightarrow> error_handler
             \<longrightarrow> Error_call s m \<in> set (calls st'))
       \<and> (\<forall>s\<in>set srcs. \<forall>data. fetch env s = Inr data \<longrightarrow>
             read_file (fs st') (cache_file env sources_cache_dir s) \<noteq> None
             \<and> ((\<forall>t\<in>set srcs. cache_file env sources_cache_dir t
                                 = cache_file env sources_cache_dir s
                      \<longrightarrow> succeeded env t \<longrightarrow> fetch env t = Inr data)
                  \<longrightarrow> cache_file env sources_cache_dir s \<noteq> path_join sources_cache_dir ''index''
                  \<longrightarrow> read_file (fs st') (cache_file env sources_cache_dir s)
                        = Some (yaml_safe_dump env data)))"
proof -
  let ?d = sources_cache_dir
  let ?f = "foldl (cache_source env ?d) (fs st) srcs"
  from update_sources_list_eq [OF assms(1,2), of ?d success_handler error_handler] assms(3)
  have r: "r = Inr (map (\<lambda>s. (s, cache_file env ?d s)) (filter (succeeded env) srcs))"
    and st': "st' = \<lparr>fs = write_cache_index ?d srcs ?f,
       calls = calls st @ concat (map (report env success_handler error_handler) srcs)\<rparr>"
    by simp_all
  have c: "calls st' = calls st @ concat (map (report env success_handler error_handler) srcs)"
    by (simp add: st')
  have e: "\<forall>s\<in>set srcs. \<forall>m. fetch env s = Inl (DownloadFailure m) \<longrightarrow> error_handler
             \<longrightarrow> Error_call s m \<in> set (calls st')"
    using report_error_call [of _ srcs env _ success_handler] by (auto simp: c)
  have w: "read_file (fs st') (cache_file env ?d s) \<noteq> None
       \<and> ((\<forall>t\<in>set srcs. cache_file env ?d t = cache_file env ?d s
                      \<longrightarrow> succeeded env t \<longrightarrow> fetch env t = Inr data)
            \<longrightarrow> cache_file env ?d s \<noteq> path_join ?d ''index''
            \<longrightarrow> read_file (fs st') (cache_file env ?d s) = Some (yaml_safe_dump env data))"
    if "s \<in> set srcs" and "fetch env s = Inr data" for s data
  proof -
    have "read_file ?f (cache_file env ?d s) \<noteq> None"
      using that by (rule foldl_cache_source_written)
    then have ex: "read_file (fs st') (cache_file env ?d s) \<noteq> None"
      by (simp add: st' read_file_write_cache_index)
    have "read_file (fs st') (cache_file env ?d s) = Some (yaml_safe_dump env data)"
      if "\<forall>t\<in>set srcs. cache_file env ?d t = cache_file env ?d s
                      \<longrightarrow> succeeded env t \<longrightarrow> fetch env t = Inr data"
        and "cache_file env ?d s \<noteq> path_join ?d ''index''"
      using foldl_cache_source_content [OF \<open>s \<in> set srcs\<close> \<open>fetch env s = Inr data\<close> that(1)]
        that(2)
      by (simp add: st' read_file_write_cache_index)
    with ex show ?thesis by blast
  qed
  from r c e w show ?thesis by blast
qed

lemma sample_state_parse:
  "parse_sources_list urlparse_sample (fs sample_state) ''/etc/sources.list.d''
     = Inr [sample_a, sample_b]"
  by (simp add: sample_state_def sample_parse)

lemma sample_fetch:
  "fetch sample_env sample_a = Inl (DownloadFailure ''<urlopen error timed out>'')"
  "fetch sample_env sample_b = Inr (YDict [])"
  by (simp_all add: fetch_def sample_a_def sample_b_def sample_env_def TYPE_YAML_def
      download_rosdep_data_def read_rosdep_data_def)

lemma sample_download_failures:
  "\<forall>s\<in>set [sample_a, sample_b]. \<forall>e. fetch sample_env s = Inl e \<longrightarrow> is_DownloadFailure e"
  by (simp add: sample_fetch)

lemma sample_cache_file:
  "cache_file sample_env ''/cache'' sample_a = ''/cache/a29a4b644cb41be7547135cf15015104cf3bad4c''"
  "cache_file sample_env ''/cache'' sample_b = ''/cache/33d85f068de7e6d96206c24a7ef3f1e9f81bc17e''"
  by (simp_all add: cache_file_def compute_filename_hash_def sample_env_def sample_a_def
      sample_b_def path_join_def startswith_def endswith_def)

lemma sample_index_path: "path_join ''/cache'' ''index'' = ''/cache/index''"
  by (simp add: path_join_def startswith_def endswith_def)

lemma sample_update:
  "update_sources_list sample_env urlparse_sample ''/etc/sources.list.d'' ''/cache'' True True
     sample_state
   = (Inr [(sample_b, ''/cache/33d85f068de7e6d96206c24a7ef3f1e9f81bc17e'')],
      \<lparr>fs = write_cache_index ''/cache'' [sample_a, sample_b]
              (foldl (cache_source sample_env ''/cache'') (fs sample_state) [sample_a, sample_b]),
       calls = [Error_call sample_a ''<urlopen error timed out>'', Success_call sample_b]\<rparr>)"
proof -
  have c0: "calls sample_state = []"
    by (simp add: sample_state_def)
  show ?thesis
    unfolding update_sources_list_eq [OF sample_state_parse sample_download_failures]
    by (simp add: sample_fetch sample_cache_file succeeded_def report_def c0)
qed

lemma sample_types: "type sample_a = TYPE_YAML" "type sample_b = TYPE_YAML"
  by (simp_all add: sample_a_def sample_b_def TYPE_YAML_def)

lemma sample_timeout_fetch:
  "download_rosdep_data sample_env_timeout (url sample_a) = Inl (SocketTimeout ''timed out'')"
  "download_rosdep_data sample_env_timeout (url sample_b) = Inr (YDict [])"
  by (simp_all add: sample_a_def sample_b_def sample_env_timeout_def sample_env_def
      download_rosdep_data_def read_rosdep_data_def)

text \<open>
  Claim C2. A failing fetch of one source is never to end the update: the error handler is
  called and the remaining sources are still fetched and cached. The loop catches
  \<open>DownloadFailure\<close> only, and \<open>download_rosdep_data\<close> turns only \<open>URLError\<close> and
  \<open>YAMLError\<close> into it. In the run below the sources list names \<open>a.yaml\<close> and then
  \<open>b.yaml\<close>; the server of \<open>a.yaml\<close> stalls during \<open>read()\<close>, which raises
  \<open>socket.timeout\<close>. The exception leaves \<open>update_sources_list\<close>: no handler is called,
  \<open>b.yaml\<close>, whose download would succeed, is neither fetched nor cached, and no index is
  written. When the same server fails with a \<open>URLError\<close> instead, the error handler
  is called for \<open>a.yaml\<close> and \<open>b.yaml\<close> is fetched and cached, as the last three
  conjuncts show.
\<close>

theorem update_sources_list_read_timeout_aborts:
  "parse_sources_list urlparse_sample (fs sample_state) ''/etc/sources.list.d''
     = Inr [sample_a, sample_b]
   \<and> urlopen_read sample_env_timeout (url sample_a) = Inl (SocketTimeout ''timed out'')
   \<and> download_rosdep_data sample_env_timeout (url sample_b) = Inr (YDict [])
   \<and> update_sources_list sample_env_timeout urlparse_sample ''/etc/sources.list.d'' ''/cache''
         True True sample_state
       = (Inl (SocketTimeout ''timed out''), sample_state)
   \<and> calls sample_state = []
   \<and> read_file (fs sample_state) ''/cache/33d85f068de7e6d96206c24a7ef3f1e9f81bc17e'' = None
   \<and> read_file (fs sample_state) ''/cache/index'' = None
   \<and> urlopen_read sample_env (url sample_a) = Inl (URLError ''<urlopen error timed out>'')
   \<and> fst (update_sources_list sample_env urlparse_sample ''/etc/sources.list.d'' ''/cache''
          True True sample_state)
     = Inr [(sample_b, ''/cache/33d85f068de7e6d96206c24a7ef3f1e9f81bc17e'')]
   \<and> calls (snd (update_sources_list sample_env urlparse_sample ''/etc/sources.list.d''
          ''/cache'' True True sample_state))
     = [Error_call sample_a ''<urlopen error timed out>'', Success_call sample_b]
   \<and> read_file (fs (snd (update_sources_list sample_env urlparse_sample
          ''/etc/sources.list.d'' ''/cache'' True True sample_state)))
        ''/cache/33d85f068de7e6d96206c24a7ef3f1e9f81bc17e''
     = Some (''{}'' @ [CHR 0x0A])"
proof -
  have abort: "update_sources_list sample_env_timeout urlparse_sample ''/etc/sources.list.d''
         ''/cache'' True True sample_state
       = (Inl (SocketTimeout ''timed out''), sample_state)"
    by (simp add: update_sources_list_def sample_state_parse sample_timeout_fetch
        sample_types)
  have raised: "urlopen_read sample_env_timeout (url sample_a) = Inl (SocketTimeout ''timed out'')"
    "urlopen_read sample_env (url sample_a) = Inl (URLError ''<urlopen error timed out>'')"
    by (simp_all add: sample_env_timeout_def sample_env_def sample_a_def)
  have before: "calls sample_state = []"
    "read_file (fs sample_state) ''/cache/33d85f068de7e6d96206c24a7ef3f1e9f81bc17e'' = None"
    "read_file (fs sample_state) ''/cache/index'' = None"
    by (simp_all add: sample_state_def sample_fs_def read_file_def)
  have dump: "yaml_safe_dump sample_env (YDict []) = ''{}'' @ [CHR 0x0A]"
    by (simp add: sample_env_def)
  have cached: "read_file (fs (snd (update_sources_list sample_env urlparse_sample
          ''/etc/sources.list.d'' ''/cache'' True True sample_state)))
        ''/cache/33d85f068de7e6d96206c24a7ef3f1e9f81bc17e''
     = Some (''{}'' @ [CHR 0x0A])"
    by (simp add: sample_update read_file_write_cache_index read_file_cache_source
        sample_fetch sample_cache_file sample_index_path dump)
  from sample_state_parse raised(1) sample_timeout_fetch(2) abort before raised(2) cached
  show ?thesis by (simp add: sample_update)
qed

text \<open>
  Claim C3. After \<open>update_sources_list\<close> has gone through the sources and returned, the
  index file of the cache holds the header line and then one line for every source of the
  parsed list, fetched or not, in the order of the list. The cache file of a source that
  no fetch of this run wrote is what it was before the update, so the index line of a
  failed source still refers to the entry of an earlier run.
\<close>

theorem update_sources_list_index_all_sources:
  assumes "parse_sources_list urlparse (fs st) sources_list_dir = Inr srcs"
    and "update_sources_list env urlparse sources_list_dir sources_cache_dir success_handler
           error_handler st = (Inr retval, st')"
  shows "read_file (fs st') (path_join sources_cache_dir ''index'')
           = Some (index_header @ concat (map index_line srcs))
       \<and> (\<forall>s\<in>set srcs.
             (\<forall>t\<in>set srcs. succeeded env t
                 \<longrightarrow> cache_file env sources_cache_dir t \<noteq> cache_file env sources_cache_dir s)
             \<longrightarrow> cache_file env sources_cache_dir s \<noteq> path_join sources_cache_dir ''index''
             \<longrightarrow> read_file (fs st') (cache_file env sources_cache_dir s)
                   = read_file (fs st) (cache_file env sources_cache_dir s))"
proof -
  let ?d = sources_cache_dir
  let ?f = "foldl (cache_source env ?d) (fs st) srcs"
  have df: "\<forall>s\<in>set srcs. \<forall>e. fetch env s = Inl e \<longrightarrow> is_DownloadFailure e"
    using assms by (rule update_sources_list_returned)
  from update_sources_list_eq [OF assms(1) df, of ?d success_handler error_handler] assms(2)
  have st': "st' = \<lparr>fs = write_cache_index ?d srcs ?f,
       calls = calls st @ concat (map (report env success_handler error_handler) srcs)\<rparr>"
    by simp
  have idx: "read_file (fs st') (path_join ?d ''index'')
           = Some (index_header @ concat (map index_line srcs))"
    by (simp add: st' read_file_write_cache_index)
  have stale: "read_file (fs st') (cache_file env ?d s) = read_file (fs st) (cache_file env ?d s)"
    if "\<forall>t\<in>set srcs. succeeded env t \<longrightarrow> cache_file env ?d t \<noteq> cache_file env ?d s"
      and "cache_file env ?d s \<noteq> path_join ?d ''index''" for s
    using foldl_cache_source_untouched [OF that(1), of "fs st"] that(2)
    by (simp add: st' read_file_write_cache_index)
  from idx stale show ?thesis by blast
qed

theorem update_sources_list_index_all_sources_witness:
  "read_file (fs (snd (update_sources_list sample_env urlparse_sample
          ''/etc/sources.list.d'' ''/cache'' True True sample_state))) ''/cache/index''
     = Some (index_header @ ''yaml http://example.org/a.yaml '' @ [CHR 0x0A]
               @ ''yaml http://example.org/b.yaml ubuntu'' @ [CHR 0x0A])
   \<and> read_file (fs (snd (update_sources_list sample_env urlparse_sample
          ''/etc/sources.list.d'' ''/cache'' True True sample_state)))
        ''/cache/a29a4b644cb41be7547135cf15015104cf3bad4c''
     = Some ''{old: data}''"
proof -
  have old: "read_file (fs sample_state) ''/cache/a29a4b644cb41be7547135cf15015104cf3bad4c''
      = Some ''{old: data}''"
    by (simp add: sample_state_def sample_fs_def read_file_def)
  have lines: "index_line sample_a @ index_line sample_b
      = ''yaml http://example.org/a.yaml '' @ [CHR 0x0A]
          @ ''yaml http://example.org/b.yaml ubuntu'' @ [CHR 0x0A]"
    by (simp add: index_line_def sample_a_def sample_b_def)
  have returned: "update_sources_list sample_env urlparse_sample ''/etc/sources.list.d''
        ''/cache'' True True sample_state
      = (Inr [(sample_b, ''/cache/33d85f068de7e6d96206c24a7ef3f1e9f81bc17e'')],
         snd (update_sources_list sample_env urlparse_sample ''/etc/sources.list.d''
                ''/cache'' True True sample_state))"
    by (simp add: sample_update)
  show ?thesis
    using update_sources_list_index_all_sources
      [where env = sample_env and sources_cache_dir = "''/cache''"
        and success_handler = True and error_handler = True,
        OF sample_state_parse returned]
    by (simp add: sample_fetch sample_cache_file sample_index_path succeeded_def old lines)
qed

subsection \<open>The manifest resolver and the install pipeline\<close>

lemma sub_fetch_file_frame:
  assumes "sub_fetch_file env u md5sum st = (r, st')"
  shows "rdmanifest_cache st' = rdmanifest_cache st \<and> heap st' = heap st
       \<and> next_addr st' = next_addr st
       \<and> (downloads st' = downloads st \<or> downloads st' = downloads st @ [u])
       \<and> ((\<exists>c. r = Inr c) \<or> (\<exists>m. r = Inl (DownloadFailed m))
            \<longrightarrow> downloads st' = downloads st @ [u])"
  using assms
  by (auto simp: sub_fetch_file_def Let_def split: if_splits prod.splits option.splits)

lemma fetch_file_frame:
  assumes "fetch_file env u md5sum st = (r, st')"
  shows "rdmanifest_cache st' = rdmanifest_cache st \<and> heap st' = heap st
       \<and> next_addr st' = next_addr st
       \<and> (downloads st' = downloads st \<or> downloads st' = downloads st @ [u])
       \<and> ((\<exists>x. r = Inr x) \<longrightarrow> downloads st' = downloads st @ [u])"
proof -
  obtain r0 st0 where s: "sub_fetch_file env u md5sum st = (r0, st0)"
    by (cases "sub_fetch_file env u md5sum st")
  from assms s have st': "st' = st0"
    by (auto simp: fetch_file_def split: sum.splits error.splits)
  from assms s have "(\<exists>x. r = Inr x) \<longrightarrow> (\<exists>c. r0 = Inr c) \<or> (\<exists>m. r0 = Inl (DownloadFailed m))"
    by (auto simp: fetch_file_def split: sum.splits error.splits)
  with sub_fetch_file_frame [OF s] st' show ?thesis by blast
qed



lemma if_truthy_Some: "if_truthy v = Some a \<Longrightarrow> v = Some a"
  by (auto simp: if_truthy_def split: option.splits if_splits)

lemma download_rdmanifest_frame:
  assumes "download_rdmanifest env u md5sum alt_url st = (r, st')"
  shows "rdmanifest_cache st' = rdmanifest_cache st \<and> heap st' = heap st
       \<and> next_addr st' = next_addr st
       \<and> (\<exists>ds. downloads st' = downloads st @ ds \<and> set ds \<subseteq> insert u (set_option alt_url))
       \<and> (\<forall>doc durl. r = Inr (doc, durl) \<longrightarrow>
             durl \<in> insert u (set_option alt_url) \<and> downloads st' \<noteq> []
             \<and> last (downloads st') = durl)"
proof -
  obtain r1 st1 where f1: "fetch_file env u md5sum st = (r1, st1)"
    by (cases "fetch_file env u md5sum st")
  note fr1 = fetch_file_frame [OF f1]
  show ?thesis
  proof (cases r1)
    case (Inl e)
    with assms f1 have "r = Inl e" "st' = st1"
      by (simp_all add: download_rdmanifest_def)
    with fr1 show ?thesis by auto
  next
    case (Inr ce)
    obtain contents err where ce: "ce = (contents, err)" by (cases ce)
    from fr1 Inr have d1: "downloads st1 = downloads st @ [u]" by blast
    show ?thesis
    proof (cases "if contents = [] then if_truthy alt_url else None")
      case None
      with assms f1 Inr ce have st': "st' = st1"
        and r: "\<forall>doc durl. r = Inr (doc, durl) \<longrightarrow> durl = u"
        by (auto simp: download_rdmanifest_def split: if_splits sum.splits)
      from st' r fr1 d1 show ?thesis by auto
    next
      case (Some alt)
      then have alt: "alt_url = Some alt"
        by (auto dest: if_truthy_Some split: if_splits)
      obtain r2 st2 where f2: "fetch_file env alt md5sum st1 = (r2, st2)"
        by (cases "fetch_file env alt md5sum st1")
      note fr2 = fetch_file_frame [OF f2]
      from assms f1 Inr ce Some f2 have st': "st' = st2"
        and r: "\<forall>doc durl. r = Inr (doc, durl) \<longrightarrow> durl = alt \<and> (\<exists>x. r2 = Inr x)"
        by (auto simp: download_rdmanifest_def split: if_splits sum.splits prod.splits)
      from fr2 d1 have ds: "downloads st2 = downloads st @ [u] \<or>
          downloads st2 = downloads st @ [u, alt]"
        by auto
      have "\<forall>doc durl. r = Inr (doc, durl) \<longrightarrow>
             durl \<in> insert u (set_option alt_url) \<and> downloads st' \<noteq> []
             \<and> last (downloads st') = durl"
        using r fr2 st' alt by auto
      moreover have "\<exists>ds. downloads st' = downloads st @ ds
          \<and> set ds \<subseteq> insert u (set_option alt_url)"
        using ds st' alt by auto
      ultimately show ?thesis using fr1 fr2 st' by auto
    qed
  qed
qed


lemma resolve_download_frame:
  assumes "resolve_download env u md5sum alt_url st = (r, st')"
  shows "heap st' = heap st \<and> next_addr st' = next_addr st
       \<and> (\<exists>ds. downloads st' = downloads st @ ds \<and> set ds \<subseteq> insert u (set_option alt_url))
       \<and> (\<forall>e. r = Inl e \<longrightarrow> rdmanifest_cache st' = rdmanifest_cache st)
       \<and> (\<forall>rs. r = Inr rs \<longrightarrow>
             (\<exists>v\<in>insert u (set_option alt_url).
                rdmanifest_cache st' = (rdmanifest_cache st)(v \<mapsto> rs)
                \<and> downloads st' \<noteq> [] \<and> last (downloads st') = v))"
proof -
  obtain r1 st1 where d: "download_rdmanifest env u md5sum alt_url st = (r1, st1)"
    by (cases "download_rdmanifest env u md5sum alt_url st")
  note fr = download_rdmanifest_frame [OF d]
  show ?thesis
  proof (cases r1)
    case (Inl e)
    with assms d have "st' = st1" and "\<forall>rs. r \<noteq> Inr rs"
      by (auto simp: resolve_download_def split: error.splits)
    with fr show ?thesis by auto
  next
    case (Inr dd)
    obtain doc durl where dd: "dd = (doc, durl)" by (cases dd)
    show ?thesis
    proof (cases "from_manifest doc durl")
      case (Inl e)
      with assms d Inr dd have "st' = st1" and "\<forall>rs. r \<noteq> Inr rs"
        by (auto simp: resolve_download_def split: error.splits)
      with fr show ?thesis by auto
    next
      case res: (Inr resolved)
      with assms d Inr dd have r: "r = Inr [resolved]"
        and st': "st' = st1\<lparr>rdmanifest_cache := (rdmanifest_cache st1)(durl \<mapsto> [resolved])\<rparr>"
        by (auto simp: resolve_download_def)
      from fr Inr dd have durl: "durl \<in> insert u (set_option alt_url)"
        and last: "downloads st1 \<noteq> []" "last (downloads st1) = durl"
        by auto
      from fr st' r durl last show ?thesis by auto
    qed
  qed
qed


lemma resolve_hit_primary:
  assumes "a_uri args = Some u" and "rdmanifest_cache st u = Some rs"
  shows "resolve env args st = (Inr rs, st)"
  using assms by (simp add: resolve_def)

lemma resolve_hit_mirror:
  assumes "a_uri args = Some u" and "rdmanifest_cache st u = None"
    and "a_alternate_uri args = Some alt" and "rdmanifest_cache st alt = Some rs"
  shows "resolve env args st = (Inr rs, st)"
  using assms by (simp add: resolve_def)

lemma resolve_cases:
  assumes "resolve env args st = (r, st')"
  shows "st' = st
       \<or> (\<exists>u. a_uri args = Some u \<and> rdmanifest_cache st u = None
              \<and> (\<forall>alt. a_alternate_uri args = Some alt \<longrightarrow> rdmanifest_cache st alt = None)
              \<and> resolve_download env u (a_md5sum args) (a_alternate_uri args) st = (r, st'))"
  using assms by (auto simp: resolve_def Let_def split: option.splits)

lemma resolve_frame:
  assumes "resolve env args st = (r, st')"
  shows "heap st' = heap st \<and> next_addr st' = next_addr st
       \<and> (\<forall>k. rdmanifest_cache st k \<noteq> None \<longrightarrow>
             rdmanifest_cache st' k = rdmanifest_cache st k
             \<and> count_list (downloads st') k = count_list (downloads st) k)"
proof -
  from resolve_cases [OF assms] show ?thesis
  proof
    assume "st' = st"
    then show ?thesis by simp
  next
    assume "\<exists>u. a_uri args = Some u \<and> rdmanifest_cache st u = None
              \<and> (\<forall>alt. a_alternate_uri args = Some alt \<longrightarrow> rdmanifest_cache st alt = None)
              \<and> resolve_download env u (a_md5sum args) (a_alternate_uri args) st = (r, st')"
    then obtain u where u: "rdmanifest_cache st u = None"
      and alt: "\<forall>alt. a_alternate_uri args = Some alt \<longrightarrow> rdmanifest_cache st alt = None"
      and rd: "resolve_download env u (a_md5sum args) (a_alternate_uri args) st = (r, st')"
      by blast
    note fr = resolve_download_frame [OF rd]
    from fr obtain ds where ds: "downloads st' = downloads st @ ds"
      and sub: "set ds \<subseteq> insert u (set_option (a_alternate_uri args))"
      by blast
    have "rdmanifest_cache st' k = rdmanifest_cache st k
        \<and> count_list (downloads st') k = count_list (downloads st) k"
      if "rdmanifest_cache st k \<noteq> None" for k
    proof -
      from that u alt have k: "k \<notin> insert u (set_option (a_alternate_uri args))"
        by (cases "a_alternate_uri args") auto
      with sub have "k \<notin> set ds" by blast
      then have "count_list ds k = 0" by (simp add: count_list_0_iff)
      with ds have n: "count_list (downloads st') k = count_list (downloads st) k" by simp
      have "rdmanifest_cache st' k = rdmanifest_cache st k"
      proof (cases r)
        case (Inl e)
        with fr show ?thesis by simp
      next
        case (Inr rs)
        with fr obtain v where "v \<in> insert u (set_option (a_alternate_uri args))"
          and "rdmanifest_cache st' = (rdmanifest_cache st)(v \<mapsto> rs)"
          by blast
        with k show ?thesis by auto
      qed
      with n show ?thesis by simp
    qed
    with fr show ?thesis by blast
  qed
qed





lemma resolve_again:
  assumes "resolve env args st = (Inr rs, st1)"
    and "rdmanifest_cache st2 = rdmanifest_cache st1"
  shows "resolve env args st2 = (Inr rs, st2)"
proof -
  from assms(1) obtain u where u: "a_uri args = Some u"
    by (auto simp: resolve_def split: option.splits)
  have after_download: "resolve env args st2 = (Inr rs, st2)"
    if none: "rdmanifest_cache st u = None"
      and rd: "resolve_download env u (a_md5sum args) (a_alternate_uri args) st = (Inr rs, st1)"
  proof -
    from resolve_download_frame [OF rd] obtain v
      where v: "v \<in> insert u (set_option (a_alternate_uri args))"
        and c: "rdmanifest_cache st1 = (rdmanifest_cache st)(v \<mapsto> rs)"
      by blast
    show ?thesis
    proof (cases "v = u")
      case True
      with c assms(2) have "rdmanifest_cache st2 u = Some rs" by simp
      with u show ?thesis by (rule resolve_hit_primary)
    next
      case False
      with v have a: "a_alternate_uri args = Some v"
        by (cases "a_alternate_uri args") auto
      from False c assms(2) none have "rdmanifest_cache st2 u = None" by simp
      moreover from c assms(2) have "rdmanifest_cache st2 v = Some rs" by simp
      ultimately show ?thesis using u a by (intro resolve_hit_mirror)
    qed
  qed
  show ?thesis
  proof (cases "rdmanifest_cache st u")
    case (Some cached)
    with assms(1) u have "cached = rs" "st1 = st" by (simp_all add: resolve_def)
    with Some assms(2) have "rdmanifest_cache st2 u = Some rs" by simp
    with u show ?thesis by (rule resolve_hit_primary)
  next
    case None
    show ?thesis
    proof (cases "a_alternate_uri args")
      case no_alt: None
      with assms(1) u None
      have "resolve_download env u (a_md5sum args) (a_alternate_uri args) st = (Inr rs, st1)"
        by (simp add: resolve_def)
      with None show ?thesis by (rule after_download)
    next
      case (Some alt)
      show ?thesis
      proof (cases "rdmanifest_cache st alt")
        case hit: (Some cached)
        with assms(1) u None Some have "cached = rs" "st1 = st"
          by (simp_all add: resolve_def)
        with hit None assms(2) have "rdmanifest_cache st2 u = None"
          "rdmanifest_cache st2 alt = Some rs"
          by simp_all
        with u Some show ?thesis by (intro resolve_hit_mirror)
      next
        case miss: None
        with assms(1) u None Some
        have "resolve_download env u (a_md5sum args) (a_alternate_uri args) st = (Inr rs, st1)"
          by (simp add: resolve_def)
        with None show ?thesis by (rule after_download)
      qed
    qed
  qed
qed

lemma foldl_extend:
  "foldl (extend p) st rs
     = st\<lparr>heap := (heap st)(p := heap st p @ concat (map dependencies rs))\<rparr>"
proof (induction rs arbitrary: st)
  case Nil
  show ?case by simp
next
  case (Cons r rs)
  have "foldl (extend p) st (r # rs) = foldl (extend p) (extend p st r) rs"
    by simp
  also have "\<dots> = (extend p st r)\<lparr>heap := (heap (extend p st r))
      (p := heap (extend p st r) p @ concat (map dependencies rs))\<rparr>"
    by (rule Cons.IH)
  also have "\<dots> = st\<lparr>heap := (heap st)(p := heap st p @ concat (map dependencies (r # rs)))\<rparr>"
    by (simp add: extend_def)
  finally show ?case .
qed


text \<open>
  Claim C9. When \<open>rosdep_args\<close> has a \<open>depends\<close> list and \<open>resolve\<close> succeeds,
  \<open>get_depends\<close> returns that very list object (its address \<open>p\<close>) and has appended the
  manifest's dependencies to it in place: the caller's list is longer by their number. A
  second call with the same arguments appends them once more.
\<close>

theorem get_depends_extends_callers_list:
  assumes "a_depends args = Some p" and "resolve env args st = (Inr rs, st1)"
  shows "get_depends env args st
           = (Inr p, st1\<lparr>heap := (heap st)(p := heap st p @ concat (map dependencies rs))\<rparr>)
       \<and> get_depends env args (snd (get_depends env args st))
           = (Inr p, st1\<lparr>heap := (heap st)(p := heap st p @ concat (map dependencies rs)
                                                  @ concat (map dependencies rs))\<rparr>)
       \<and> length (heap (snd (get_depends env args st)) p)
           = length (heap st p) + length (concat (map dependencies rs))"
proof -
  let ?deps = "concat (map dependencies rs)"
  let ?st2 = "st1\<lparr>heap := (heap st)(p := heap st p @ ?deps)\<rparr>"
  from resolve_frame [OF assms(2)] have h: "heap st1 = heap st" by simp
  have first: "get_depends env args st = (Inr p, ?st2)"
    by (simp add: get_depends_def assms foldl_extend h)
  have "resolve env args ?st2 = (Inr rs, ?st2)"
    using assms(2) by (rule resolve_again) simp
  then have second: "get_depends env args ?st2
      = (Inr p, st1\<lparr>heap := (heap st)(p := heap st p @ ?deps @ ?deps)\<rparr>)"
    by (simp add: get_depends_def assms(1) foldl_extend)
  from first second show ?thesis by simp
qed

lemmas sample_jfrog_defs =
  sample_tarball_def sample_mirror_def sample_manifest_url_def sample_nouri_url_def
  sample_manifest_def sample_nouri_manifest_def sample_jfrog_env_def sample_jfrog_state_def
  sample_args_def sample_nouri_args_def sample_resolved_def sample_resolved_no_mirror_def
  sample_resolved_wrong_sum_def sample_resolved_no_sum_def

lemmas jfrog_defs =
  install_source_def jfrog_urlretrieve_def verify_md5sum_def get_file_hash_def
  unpack_and_run_def cleanup_def rmtree_def inside_def dirname_def last_n_def if_truthy_def
  read_file_def write_file_def makedirs_def path_join_def startswith_def endswith_def
  JFROG_INSTALLER_def Let_def



lemma cleanup_removes: "tempdir \<notin> set (dirs (jfs (snd (cleanup tempdir x))))"
  by (cases x) (auto simp: cleanup_def rmtree_def inside_def split: sum.splits if_splits)

lemma install_source_cleans_after_verification:
  assumes "5 \<le> length (split_on CHR ''/'' (tarball resolved))"
    and "filename = join ''/'' (last_n 4 (split_on CHR ''/'' (tarball resolved)))"
    and "jfrog_urlretrieve env (tarball resolved) st = ((filename, err), st1)"
    and "verify_md5sum env resolved filename st1 = (Inr filename', st2)"
  shows "dirname filename \<notin> set (dirs (jfs (snd (install_source env resolved st))))"
proof -
  have "install_source env resolved st
      = cleanup (dirname filename) (unpack_and_run env resolved filename' (dirname filename) st2)"
    using assms by (simp add: install_source_def Let_def)
  then show ?thesis by (simp add: cleanup_removes)
qed

text \<open>
  Claim C1. The working directory of \<open>install_source\<close> is to be removed on every exit
  path, the failure of the checksum verification among them. The \<open>try ... finally\<close> that
  removes it begins only after the checksum block, so an \<open>InstallFailed\<close> raised there
  leaves the directory behind. For the unit below (checksum declared, no mirror, the
  downloaded tarball has another digest) the call ends with \<open>InstallFailed\<close>, and the
  directory \<open>tools/cg/3.1\<close> with the downloaded tarball in it still exists. Once the
  verification has passed the directory is always removed
  (\<open>install_source_cleans_after_verification\<close>).
\<close>

theorem install_source_checksum_failure_leaves_directory:
  "fst (install_source sample_jfrog_env sample_resolved_no_mirror sample_jfrog_state)
     = Inl (InstallFailed ''jfrog''
         (''md5sum check on https://jf.io/artifactory/deps/tools/cg/3.1/cg.tar.gz failed.''
            @ ''  Expected 3416a8fc7d3487b883fbaba2492e8cb6''
            @ '' got 16671968aeab92b3db840f3277e00bdd ''))
   \<and> dirname ''tools/cg/3.1/cg.tar.gz'' = ''tools/cg/3.1''
   \<and> ''tools/cg/3.1''
       \<in> set (dirs (jfs (snd (install_source sample_jfrog_env sample_resolved_no_mirror
                                sample_jfrog_state))))
   \<and> read_file (jfs (snd (install_source sample_jfrog_env sample_resolved_no_mirror
                           sample_jfrog_state))) ''tools/cg/3.1/cg.tar.gz''
       = Some ''primary bytes''"
  by (simp add: jfrog_defs sample_jfrog_defs)



lemmas resolve_defs =
  resolve_def resolve_download_def download_rdmanifest_def fetch_file_def sub_fetch_file_def
  load_rdmanifest_def from_manifest_def get_default_def


lemma sample_first_resolve:
  "resolve sample_jfrog_env sample_args sample_jfrog_state
     = (Inr [sample_resolved], sample_state_after)"
  by (simp add: resolve_defs jfrog_defs sample_jfrog_defs sample_state_after_def)



theorem get_depends_extends_callers_list_witness:
  "fst (get_depends sample_jfrog_env sample_args sample_jfrog_state) = Inr 0
   \<and> heap sample_jfrog_state 0 = [''cmake'']
   \<and> heap (snd (get_depends sample_jfrog_env sample_args sample_jfrog_state)) 0
     = [''cmake'', ''boost'', ''zlib'']
   \<and> heap (snd (get_depends sample_jfrog_env sample_args
        (snd (get_depends sample_jfrog_env sample_args sample_jfrog_state)))) 0
     = [''cmake'', ''boost'', ''zlib'', ''boost'', ''zlib'']"
proof -
  have p: "a_depends sample_args = Some 0"
    by (simp add: sample_args_def)
  have h: "heap sample_jfrog_state 0 = [''cmake'']"
    by (simp add: sample_jfrog_state_def)
  have deps: "dependencies sample_resolved = [''boost'', ''zlib'']"
    by (simp add: sample_resolved_def)
  note t = get_depends_extends_callers_list [OF p sample_first_resolve]
  note first = t [THEN conjunct1]
  note second = t [THEN conjunct2, THEN conjunct1]
  have twice: "heap (snd (get_depends sample_jfrog_env sample_args
        (snd (get_depends sample_jfrog_env sample_args sample_jfrog_state)))) 0
     = [''cmake'', ''boost'', ''zlib'', ''boost'', ''zlib'']"
    by (simp only: second) (simp add: h deps)
  have once: "fst (get_depends sample_jfrog_env sample_args sample_jfrog_state) = Inr 0"
    "heap (snd (get_depends sample_jfrog_env sample_args sample_jfrog_state)) 0
     = [''cmake'', ''boost'', ''zlib'']"
    by (simp_all only: first) (simp_all add: h deps)
  from once h twice show ?thesis by (intro conjI)
qed














end
